theory Spec2Isabelle
  imports Complex_Main "HOL-Library.AList" "HOL-Library.Sublist"
begin

section \<open>Values of the host language\<close>

text \<open>
  The dashboard is plain JavaScript. Its numbers are doubles; here a finite double is a
  \<^typ>\<open>real\<close> and arithmetic is exact, so sums are the mathematical sums (the
  specification compares them "within floating-point tolerance"). \<open>undefined\<close> and
  \<open>null\<close> are \<open>None\<close>. Three builtins of the host are parameters of the functions
  that call them: the collation \<open>localeCompare\<close> (\<open>lc\<close>), the case fold
  \<open>toLowerCase\<close> (\<open>lower\<close>) and the number reader \<open>parseFloat\<close> (\<open>pf\<close>).
\<close>

text \<open>\<open>x || 0\<close> on a number: zero (and not-a-number) are falsy.\<close>

definition or_zero :: "real \<Rightarrow> real" where
  "or_zero x = (if x = 0 then 0 else x)"

text \<open>\<open>s || d\<close> on an optional string: absent and empty strings are falsy.\<close>

definition or_str :: "string option \<Rightarrow> string \<Rightarrow> string" where
  "or_str s d = (case s of None \<Rightarrow> d | Some t \<Rightarrow> if t = [] then d else t)"

text \<open>
  A \<open>Map\<close> iterates in insertion order, and setting a key that is present keeps its
  position: an association list with in-place update.
\<close>

type_synonym ('k, 'v) jsmap = "('k \<times> 'v) list"

definition map_get :: "('k, 'v) jsmap \<Rightarrow> 'k \<Rightarrow> 'v option" where
  "map_get m k = map_of m k"

definition map_has :: "('k, 'v) jsmap \<Rightarrow> 'k \<Rightarrow> bool" where
  "map_has m k = (map_of m k \<noteq> None)"

definition map_set :: "('k, 'v) jsmap \<Rightarrow> 'k \<Rightarrow> 'v \<Rightarrow> ('k, 'v) jsmap" where
  "map_set m k v = AList.update k v m"

text \<open>\<open>(m.get(k) || 0)\<close> for a map of numbers.\<close>

definition get_or_zero :: "('k, real) jsmap \<Rightarrow> 'k \<Rightarrow> real" where
  "get_or_zero m k = (case map_get m k of None \<Rightarrow> 0 | Some x \<Rightarrow> or_zero x)"

definition get_or_zero_nat :: "('k, nat) jsmap \<Rightarrow> 'k \<Rightarrow> nat" where
  "get_or_zero_nat m k = (case map_get m k of None \<Rightarrow> 0 | Some x \<Rightarrow> x)"

text \<open>
  \<open>Array.prototype.sort\<close> with a comparator is stable: an element moves in front of
  another only when the comparator is positive for the pair in their current order. For a
  comparator that is a consistent ordering this is the insertion sort below.
\<close>

fun insert_sorted :: "('a \<Rightarrow> 'a \<Rightarrow> real) \<Rightarrow> 'a \<Rightarrow> 'a list \<Rightarrow> 'a list" where
  "insert_sorted cmp x [] = [x]"
| "insert_sorted cmp x (y # ys) =
     (if cmp x y \<le> 0 then x # y # ys else y # insert_sorted cmp x ys)"

definition js_sort :: "('a \<Rightarrow> 'a \<Rightarrow> real) \<Rightarrow> 'a list \<Rightarrow> 'a list" where
  "js_sort cmp xs = foldr (insert_sorted cmp) xs []"

text \<open>\<open>s.split(c)\<close> for a one-character separator.\<close>

fun str_split :: "char \<Rightarrow> string \<Rightarrow> string list" where
  "str_split c [] = [[]]"
| "str_split c (x # xs) =
     (if x = c then [] # str_split c xs
      else (case str_split c xs of [] \<Rightarrow> [[x]] | p # ps \<Rightarrow> (x # p) # ps))"

text \<open>Reading an array position; out of range is \<open>undefined\<close>.\<close>

definition at_index :: "'a list \<Rightarrow> nat \<Rightarrow> 'a option" where
  "at_index xs i = (if i < length xs then Some (xs ! i) else None)"

text \<open>
  \<open>const [field, direction] = sortBy.split('-')\<close> and
  \<open>direction === 'desc' ? -1 : 1\<close>.
\<close>

definition sort_field :: "string \<Rightarrow> string option" where
  "sort_field sortBy = at_index (str_split CHR ''-'' sortBy) 0"

definition sort_direction :: "string \<Rightarrow> string option" where
  "sort_direction sortBy = at_index (str_split CHR ''-'' sortBy) 1"

definition multiplier :: "string \<Rightarrow> real" where
  "multiplier sortBy = (if sort_direction sortBy = Some ''desc'' then - 1 else 1)"

section \<open>Records\<close>

text \<open>
  A number as normalization produces it: \<open>NaN\<close>, a finite number, or one of the two
  infinite doubles.
\<close>

datatype jsnum = NaN | Num real | PosInfinity | NegInfinity

text \<open>
  A normalized contract record, with the fields the pipeline reads. \<open>new Date(s)\<close> is
  kept as the string it was built from. The type of the amount is left open:
  normalization yields any number but \<open>NaN\<close>, and filtering and aggregation are
  modelled on the records whose amount is finite, where it is a \<^typ>\<open>real\<close>.
\<close>

datatype date = Date string

record 'n contract_record =
  vendor_name :: "string option"
  agency_name :: "string option"
  contract_amount :: 'n
  short_title :: "string option"
  additional_info :: string
  start_date_parsed :: "date option"
  end_date_parsed :: "date option"

type_synonym contract = "real contract_record"

type_synonym normalized = "jsnum contract_record"

section \<open>Aggregation (api.js)\<close>

record cell =
  amount :: real
  count :: nat

record bucket = cell +
  vendor :: string
  agency :: string
  contracts :: "contract list"

datatype node_type = Vendor | Agency

record node =
  node_name :: string
  node_type :: node_type
  node_id :: string
  node_total :: "real option"

record link =
  source :: "nat option"
  target :: "nat option"
  link_value :: real
  link_count :: nat
  link_vendor :: string
  link_agency :: string
  link_contracts :: "contract list"

record sankey =
  nodes :: "node list"
  links :: "link list"

record matrix_data =
  vendors :: "string list"
  agencies :: "string list"
  matrix :: "cell list list"
  vendorTotals :: "real option list"
  agencyTotals :: "real option list"

text \<open>The bucket key \<open>`${vendor}|||${agency}`\<close>.\<close>

definition pair_key :: "string \<Rightarrow> string \<Rightarrow> string" where
  "pair_key v a = v @ ''|||'' @ a"

definition vendor_of :: "contract \<Rightarrow> string" where
  "vendor_of r = or_str (vendor_name r) ''Unknown Vendor''"

definition agency_of :: "contract \<Rightarrow> string" where
  "agency_of r = or_str (agency_name r) ''Unknown Agency''"

definition amount_of :: "contract \<Rightarrow> real" where
  "amount_of r = or_zero (contract_amount r)"

text \<open>The state of the first \<open>forEach\<close> of \<open>aggregateForSankey\<close>.\<close>

record sankey_acc =
  linkMap :: "(string, bucket) jsmap"
  sk_vendorTotals :: "(string, real) jsmap"
  sk_agencyTotals :: "(string, real) jsmap"

definition sankey_step :: "sankey_acc \<Rightarrow> contract \<Rightarrow> sankey_acc" where
  "sankey_step s r =
     (let v = vendor_of r; a = agency_of r; x = amount_of r;
          vtot = map_set (sk_vendorTotals s) v (get_or_zero (sk_vendorTotals s) v + x);
          atot = map_set (sk_agencyTotals s) a (get_or_zero (sk_agencyTotals s) a + x);
          key = pair_key v a;
          lm = (if \<not> map_has (linkMap s) key
                then map_set (linkMap s) key
                  \<lparr>amount = 0, count = 0, vendor = v, agency = a, contracts = []\<rparr>
                else linkMap s);
          lm' = (case map_get lm key of
                   None \<Rightarrow> lm
                 | Some b \<Rightarrow> map_set lm key
                     (b\<lparr>amount := amount b + x, count := count b + 1,
                        contracts := contracts b @ [r]\<rparr>))
      in \<lparr>linkMap = lm', sk_vendorTotals = vtot, sk_agencyTotals = atot\<rparr>)"

definition sankey_group :: "contract list \<Rightarrow> sankey_acc" where
  "sankey_group data =
     foldl sankey_step \<lparr>linkMap = [], sk_vendorTotals = [], sk_agencyTotals = []\<rparr> data"

text \<open>The second pass of the \<open>count\<close> branch of \<open>aggregateForSankey\<close>.\<close>

definition count_step ::
  "(string, nat) jsmap \<times> (string, nat) jsmap \<Rightarrow> contract
     \<Rightarrow> (string, nat) jsmap \<times> (string, nat) jsmap" where
  "count_step c r =
     (let v = vendor_of r; a = agency_of r
      in (map_set (fst c) v (get_or_zero_nat (fst c) v + 1),
          map_set (snd c) a (get_or_zero_nat (snd c) a + 1)))"

text \<open>The comparators \<open>(a, b) => multiplier * (a[1] - b[1])\<close> and
  \<open>(a, b) => multiplier * a.localeCompare(b)\<close>. The collation \<open>localeCompare\<close> is the
  host's and is a parameter \<open>lc\<close> throughout.\<close>

definition by_amount :: "string \<Rightarrow> string \<times> real \<Rightarrow> string \<times> real \<Rightarrow> real" where
  "by_amount sortBy a b = multiplier sortBy * (snd a - snd b)"

definition by_count :: "string \<Rightarrow> string \<times> nat \<Rightarrow> string \<times> nat \<Rightarrow> real" where
  "by_count sortBy a b = multiplier sortBy * (real (snd a) - real (snd b))"

definition by_name :: "(string \<Rightarrow> string \<Rightarrow> int) \<Rightarrow> string \<Rightarrow> string \<Rightarrow> string \<Rightarrow> real" where
  "by_name lc sortBy a b = multiplier sortBy * real_of_int (lc a b)"

text \<open>The three-way ordering of the entities, shared in shape by both projections.\<close>

definition order_entities ::
  "(string \<Rightarrow> string \<Rightarrow> int) \<Rightarrow> string \<Rightarrow> (string, real) jsmap \<Rightarrow> (string, nat) jsmap
     \<Rightarrow> string list" where
  "order_entities lc sortBy totals counts =
     (if sort_field sortBy = Some ''amount''
      then map fst (js_sort (by_amount sortBy) totals)
      else if sort_field sortBy = Some ''count''
      then map fst (js_sort (by_count sortBy) counts)
      else js_sort (by_name lc sortBy) (map fst totals))"

text \<open>The two \<open>forEach\<close> loops that push the nodes and fill \<open>nodeIndex\<close>.\<close>

record node_acc =
  acc_nodes :: "node list"
  nodeIndex :: "(string, nat) jsmap"

definition add_vendor :: "(string, real) jsmap \<Rightarrow> node_acc \<Rightarrow> string \<Rightarrow> node_acc" where
  "add_vendor vtot s v =
     \<lparr>acc_nodes = acc_nodes s @
        [\<lparr>node_name = v, node_type = Vendor, node_id = ''vendor:'' @ v,
          node_total = map_get vtot v\<rparr>],
      nodeIndex = map_set (nodeIndex s) (''vendor:'' @ v) (length (acc_nodes s))\<rparr>"

definition add_agency :: "(string, real) jsmap \<Rightarrow> node_acc \<Rightarrow> string \<Rightarrow> node_acc" where
  "add_agency atot s a =
     \<lparr>acc_nodes = acc_nodes s @
        [\<lparr>node_name = a, node_type = Agency, node_id = ''agency:'' @ a,
          node_total = map_get atot a\<rparr>],
      nodeIndex = map_set (nodeIndex s) (''agency:'' @ a) (length (acc_nodes s))\<rparr>"

definition make_link :: "(string, nat) jsmap \<Rightarrow> bucket \<Rightarrow> link" where
  "make_link ni b =
     \<lparr>source = map_get ni (''vendor:'' @ vendor b),
      target = map_get ni (''agency:'' @ agency b),
      link_value = amount b, link_count = count b,
      link_vendor = vendor b, link_agency = agency b,
      link_contracts = contracts b\<rparr>"

definition aggregateForSankey ::
  "(string \<Rightarrow> string \<Rightarrow> int) \<Rightarrow> contract list \<Rightarrow> string \<Rightarrow> sankey" where
  "aggregateForSankey lc data sortBy =
     (let g = sankey_group data;
          cs = foldl count_step ([], []) data;
          sortedVendors = order_entities lc sortBy (sk_vendorTotals g) (fst cs);
          sortedAgencies = order_entities lc sortBy (sk_agencyTotals g) (snd cs);
          n1 = foldl (add_vendor (sk_vendorTotals g))
                 \<lparr>acc_nodes = [], nodeIndex = []\<rparr> sortedVendors;
          n2 = foldl (add_agency (sk_agencyTotals g)) n1 sortedAgencies
      in \<lparr>nodes = acc_nodes n2,
          links = map (make_link (nodeIndex n2)) (map snd (linkMap g))\<rparr>)"

text \<open>The state of the \<open>forEach\<close> of \<open>aggregateForMatrix\<close>.\<close>

record matrix_acc =
  vendorTotalsMap :: "(string, real) jsmap"
  agencyTotalsMap :: "(string, real) jsmap"
  vendorCountsMap :: "(string, nat) jsmap"
  agencyCountsMap :: "(string, nat) jsmap"
  matrixMap :: "(string, cell) jsmap"

definition matrix_step :: "matrix_acc \<Rightarrow> contract \<Rightarrow> matrix_acc" where
  "matrix_step s r =
     (let v = vendor_of r; a = agency_of r; x = amount_of r;
          vtot = map_set (vendorTotalsMap s) v (get_or_zero (vendorTotalsMap s) v + x);
          atot = map_set (agencyTotalsMap s) a (get_or_zero (agencyTotalsMap s) a + x);
          vc = map_set (vendorCountsMap s) v (get_or_zero_nat (vendorCountsMap s) v + 1);
          ac = map_set (agencyCountsMap s) a (get_or_zero_nat (agencyCountsMap s) a + 1);
          key = pair_key v a;
          mm = (if \<not> map_has (matrixMap s) key
                then map_set (matrixMap s) key \<lparr>amount = 0, count = 0\<rparr>
                else matrixMap s);
          mm' = (case map_get mm key of
                   None \<Rightarrow> mm
                 | Some c \<Rightarrow> map_set mm key
                     (c\<lparr>amount := amount c + x, count := count c + 1\<rparr>))
      in \<lparr>vendorTotalsMap = vtot, agencyTotalsMap = atot, vendorCountsMap = vc,
          agencyCountsMap = ac, matrixMap = mm'\<rparr>)"

definition matrix_group :: "contract list \<Rightarrow> matrix_acc" where
  "matrix_group data =
     foldl matrix_step
       \<lparr>vendorTotalsMap = [], agencyTotalsMap = [], vendorCountsMap = [],
        agencyCountsMap = [], matrixMap = []\<rparr> data"

definition matrix_cell :: "(string, cell) jsmap \<Rightarrow> string \<Rightarrow> string \<Rightarrow> cell" where
  "matrix_cell mm v a =
     (case map_get mm (pair_key v a) of
        Some c \<Rightarrow> \<lparr>amount = amount c, count = count c\<rparr>
      | None \<Rightarrow> \<lparr>amount = 0, count = 0\<rparr>)"

definition aggregateForMatrix ::
  "(string \<Rightarrow> string \<Rightarrow> int) \<Rightarrow> contract list \<Rightarrow> string \<Rightarrow> matrix_data" where
  "aggregateForMatrix lc data sortBy =
     (let g = matrix_group data;
          vs = order_entities lc sortBy (vendorTotalsMap g) (vendorCountsMap g);
          ags = order_entities lc sortBy (agencyTotalsMap g) (agencyCountsMap g)
      in \<lparr>vendors = vs, agencies = ags,
          matrix = map (\<lambda>v. map (\<lambda>a. matrix_cell (matrixMap g) v a) ags) vs,
          vendorTotals = map (map_get (vendorTotalsMap g)) vs,
          agencyTotals = map (map_get (agencyTotalsMap g)) ags\<rparr>)"

section \<open>Normalization and paging (api.js, utils.js)\<close>

text \<open>
  A raw row of the response: every selected column is a string or absent. Only the
  columns that the modelled code reads are kept.
\<close>

record raw_row =
  raw_vendor_name :: "string option"
  raw_agency_name :: "string option"
  raw_contract_amount :: "string option"
  raw_short_title :: "string option"
  other_info_1 :: "string option"
  other_info_2 :: "string option"
  other_info_3 :: "string option"
  start_date :: "string option"
  end_date :: "string option"

text \<open>\<open>x || 0\<close> on a number that may be \<open>NaN\<close> or infinite.\<close>

definition num_or_zero :: "jsnum \<Rightarrow> jsnum" where
  "num_or_zero n =
     (case n of NaN \<Rightarrow> Num 0 | Num x \<Rightarrow> Num (or_zero x)
      | PosInfinity \<Rightarrow> PosInfinity | NegInfinity \<Rightarrow> NegInfinity)"

text \<open>
  \<open>parseFloat(v)\<close> for a value that is a string or absent, with the host's reading
  \<open>pf\<close> of strings: \<open>undefined\<close> is no number.
\<close>

definition parseFloat :: "(string \<Rightarrow> jsnum) \<Rightarrow> string option \<Rightarrow> jsnum" where
  "parseFloat pf v = (case v of None \<Rightarrow> NaN | Some s \<Rightarrow> pf s)"

text \<open>The white space that \<open>trim\<close> removes.\<close>

definition is_space :: "char \<Rightarrow> bool" where
  "is_space c = (of_char c \<in> {9, 10, 11, 12, 13, 32, 160 :: nat})"

text \<open>\<open>Utils.concatenateOtherInfo\<close>, with \<open>trim\<close> and \<open>join\<close>.\<close>

definition trim :: "string \<Rightarrow> string" where
  "trim s = rev (dropWhile is_space (rev (dropWhile is_space s)))"

fun join :: "string \<Rightarrow> string list \<Rightarrow> string" where
  "join sep [] = []"
| "join sep [p] = p"
| "join sep (p # q # ps) = p @ sep @ join sep (q # ps)"

definition keep_part :: "string option \<Rightarrow> bool" where
  "keep_part part = (case part of None \<Rightarrow> False | Some p \<Rightarrow> p \<noteq> [] \<and> trim p \<noteq> [])"

definition concatenateOtherInfo :: "raw_row \<Rightarrow> string" where
  "concatenateOtherInfo r =
     join '' | ''
       (map (\<lambda>part. or_str part [])
          (filter keep_part [other_info_1 r, other_info_2 r, other_info_3 r]))"

definition parse_date :: "string option \<Rightarrow> date option" where
  "parse_date d = (case d of None \<Rightarrow> None | Some s \<Rightarrow> if s = [] then None else Some (Date s))"

definition processRecord :: "(string \<Rightarrow> jsnum) \<Rightarrow> raw_row \<Rightarrow> normalized" where
  "processRecord pf r =
     \<lparr>vendor_name = raw_vendor_name r,
      agency_name = raw_agency_name r,
      contract_amount = num_or_zero (parseFloat pf (raw_contract_amount r)),
      short_title = raw_short_title r,
      additional_info = concatenateOtherInfo r,
      start_date_parsed = parse_date (start_date r),
      end_date_parsed = parse_date (end_date r)\<rparr>"

definition processData :: "(string \<Rightarrow> jsnum) \<Rightarrow> raw_row list \<Rightarrow> normalized list" where
  "processData pf data = map (processRecord pf) data"



text \<open>
  \<open>fetchPage\<close> is the remote service: given \<open>$offset\<close> and \<open>$limit\<close> it answers with a
  page of rows or fails (a network error or a status that is not 2xx).
\<close>

datatype fetch_error = HttpError

type_synonym service = "nat \<Rightarrow> nat \<Rightarrow> fetch_error + raw_row list"

definition PAGE_SIZE :: nat where
  "PAGE_SIZE = 10000"

text \<open>
  The \<open>while (hasMore)\<close> loop of \<open>fetchAll\<close>, on \<open>allData\<close> and \<open>offset\<close>. The next
  round is entered only with \<open>offset \<le> 100000\<close>, which bounds the number of rounds.
\<close>

function fetch_loop :: "service \<Rightarrow> raw_row list \<Rightarrow> nat \<Rightarrow> fetch_error + raw_row list" where
  "fetch_loop fetchPage allData offset =
     (case fetchPage offset PAGE_SIZE of
        Inl e \<Rightarrow> Inl e
      | Inr pageData \<Rightarrow>
          if length pageData = 0 then Inr allData
          else if offset + PAGE_SIZE > 100000 \<or> length pageData < PAGE_SIZE
          then Inr (allData @ pageData)
          else fetch_loop fetchPage (allData @ pageData) (offset + PAGE_SIZE))"
  by pat_completeness auto
termination
  by (relation "measure (\<lambda>(f, d, offset). 100001 - offset)") (auto simp: PAGE_SIZE_def)

definition fetchAll :: "(string \<Rightarrow> jsnum) \<Rightarrow> service \<Rightarrow> fetch_error + normalized list" where
  "fetchAll pf fetchPage =
     (case fetch_loop fetchPage [] 0 of
        Inl e \<Rightarrow> Inl e
      | Inr allData \<Rightarrow> Inr (processData pf allData))"

section \<open>Filtering and sorting of records (filters.js)\<close>

text \<open>The part of \<open>Filters.state\<close> that \<open>applyFilters\<close> and \<open>sortData\<close> read.\<close>

record filter_state =
  searchQuery :: string
  selectedVendors :: "string list"
  selectedAgencies :: "string list"
  sortBy :: string

text \<open>\<open>hay.includes(needle)\<close>.\<close>

fun str_includes :: "string \<Rightarrow> string \<Rightarrow> bool" where
  "str_includes [] needle = (needle = [])"
| "str_includes (h # hs) needle = (prefix needle (h # hs) \<or> str_includes hs needle)"

text \<open>
  \<open>field && field.toLowerCase().includes(query)\<close>, where \<open>lower\<close> is the host's
  \<open>toLowerCase\<close>.
\<close>

definition field_matches :: "(string \<Rightarrow> string) \<Rightarrow> string \<Rightarrow> string option \<Rightarrow> bool" where
  "field_matches lower query field =
     (case field of None \<Rightarrow> False
      | Some f \<Rightarrow> f \<noteq> [] \<and> str_includes (lower f) query)"

definition search_match :: "(string \<Rightarrow> string) \<Rightarrow> string \<Rightarrow> contract \<Rightarrow> bool" where
  "search_match lower query r =
     list_ex (field_matches lower query)
       [vendor_name r, agency_name r, short_title r, Some (additional_info r)]"

text \<open>\<open>selected.includes(record.vendor_name)\<close> on an array of strings.\<close>

definition selected_has :: "string list \<Rightarrow> string option \<Rightarrow> bool" where
  "selected_has selected v = (case v of None \<Rightarrow> False | Some n \<Rightarrow> List.member selected n)"

text \<open>The comparator of \<open>sortData\<close>.\<close>

definition record_cmp ::
  "(string \<Rightarrow> string \<Rightarrow> int) \<Rightarrow> (string \<Rightarrow> string) \<Rightarrow> string \<Rightarrow> contract \<Rightarrow> contract \<Rightarrow> real" where
  "record_cmp lc lower sb a b =
     (if sort_field sb = Some ''amount'' then multiplier sb * (amount_of a - amount_of b)
      else if sort_field sb = Some ''count'' then multiplier sb * (amount_of a - amount_of b)
      else if sort_field sb = Some ''name''
      then multiplier sb *
             real_of_int (lc (lower (or_str (vendor_name a) []))
                             (lower (or_str (vendor_name b) [])))
      else 0)"

text \<open>
  \<open>sortData\<close> and \<open>applyFilters\<close> work on arrays, which are shared by reference, and
  \<open>sort\<close> reorders its array in place. The store holds the contents of every array,
  indexed by its address; a fresh array gets the next address.
\<close>

type_synonym store = "contract list list"

definition deref :: "store \<Rightarrow> nat \<Rightarrow> contract list" where
  "deref h a = (if a < length h then h ! a else [])"

definition new_array :: "store \<Rightarrow> contract list \<Rightarrow> store \<times> nat" where
  "new_array h xs = (h @ [xs], length h)"

text \<open>\<open>[...data]\<close>, \<open>data.filter(p)\<close> and \<open>data.sort(cmp)\<close>.\<close>

definition spread :: "store \<Rightarrow> nat \<Rightarrow> store \<times> nat" where
  "spread h a = new_array h (deref h a)"

definition filter_array :: "(contract \<Rightarrow> bool) \<Rightarrow> store \<Rightarrow> nat \<Rightarrow> store \<times> nat" where
  "filter_array p h a = new_array h (filter p (deref h a))"

definition sort_array :: "(contract \<Rightarrow> contract \<Rightarrow> real) \<Rightarrow> store \<Rightarrow> nat \<Rightarrow> store \<times> nat" where
  "sort_array cmp h a = (h[a := js_sort cmp (deref h a)], a)"

definition sortData ::
  "(string \<Rightarrow> string \<Rightarrow> int) \<Rightarrow> (string \<Rightarrow> string) \<Rightarrow> filter_state \<Rightarrow> store \<Rightarrow> nat
     \<Rightarrow> store \<times> nat" where
  "sortData lc lower st h data =
     (let (h1, c) = spread h data
      in sort_array (record_cmp lc lower (sortBy st)) h1 c)"

definition applyFilters ::
  "(string \<Rightarrow> string \<Rightarrow> int) \<Rightarrow> (string \<Rightarrow> string) \<Rightarrow> filter_state \<Rightarrow> store \<Rightarrow> nat
     \<Rightarrow> store \<times> nat" where
  "applyFilters lc lower st h data =
     (let (h0, f0) = spread h data;
          (h1, f1) = (if searchQuery st \<noteq> []
                      then filter_array (search_match lower (lower (searchQuery st))) h0 f0
                      else (h0, f0));
          (h2, f2) = (if length (selectedVendors st) > 0
                      then filter_array
                             (\<lambda>r. selected_has (selectedVendors st) (vendor_name r)) h1 f1
                      else (h1, f1));
          (h3, f3) = (if length (selectedAgencies st) > 0
                      then filter_array
                             (\<lambda>r. selected_has (selectedAgencies st) (agency_name r)) h2 f2
                      else (h2, f2))
      in sortData lc lower st h3 f3)"

text \<open>The array a call returns, for a caller that holds the argument as a value.\<close>

definition sortData_value ::
  "(string \<Rightarrow> string \<Rightarrow> int) \<Rightarrow> (string \<Rightarrow> string) \<Rightarrow> filter_state \<Rightarrow> contract list
     \<Rightarrow> contract list" where
  "sortData_value lc lower st data =
     (let (h, r) = sortData lc lower st [data] 0 in deref h r)"

definition applyFilters_value ::
  "(string \<Rightarrow> string \<Rightarrow> int) \<Rightarrow> (string \<Rightarrow> string) \<Rightarrow> filter_state \<Rightarrow> contract list
     \<Rightarrow> contract list" where
  "applyFilters_value lc lower st data =
     (let (h, r) = applyFilters lc lower st [data] 0 in deref h r)"

section \<open>The header statistics (app.js)\<close>

record stats =
  total_contracts :: nat
  total_amount :: real

text \<open>\<open>App.applyClientFilters\<close>: the filtered collection and the statistics it reports.\<close>

definition applyClientFilters ::
  "(string \<Rightarrow> string \<Rightarrow> int) \<Rightarrow> (string \<Rightarrow> string) \<Rightarrow> filter_state \<Rightarrow> contract list
     \<Rightarrow> contract list \<times> stats" where
  "applyClientFilters lc lower st rawData =
     (let filteredData = applyFilters_value lc lower st rawData;
          totalAmount = foldl (\<lambda>acc r. acc + amount_of r) 0 filteredData
      in (filteredData,
          \<lparr>total_contracts = length filteredData, total_amount = totalAmount\<rparr>))"

section \<open>Windowing in the matrix view (matrix.js)\<close>

record entry =
  entry_name :: string
  entry_total :: "real option"
  entry_index :: nat

record matrix_view =
  vendorOrder :: "entry list"
  agencyOrder :: "entry list"
  shown_cells :: "cell option list list"
  grandTotal :: jsnum

text \<open>\<open>totals[i]\<close> and \<open>matrix[i][j]\<close>.\<close>

definition total_at :: "real option list \<Rightarrow> nat \<Rightarrow> real option" where
  "total_at totals i = (case at_index totals i of None \<Rightarrow> None | Some t \<Rightarrow> t)"

definition cell_at :: "cell list list \<Rightarrow> nat \<Rightarrow> nat \<Rightarrow> cell option" where
  "cell_at m i j = (case at_index m i of None \<Rightarrow> None | Some row \<Rightarrow> at_index row j)"

text \<open>\<open>names.slice(0, n).map((v, i) => ({ name: v, total: totals[i], index: i }))\<close>.\<close>

definition limit_entries :: "nat \<Rightarrow> string list \<Rightarrow> real option list \<Rightarrow> entry list" where
  "limit_entries n names totals =
     map (\<lambda>(i, v). \<lparr>entry_name = v, entry_total = total_at totals i, entry_index = i\<rparr>)
       (enumerate 0 (take n names))"

text \<open>\<open>sum + v.total\<close>: adding \<open>undefined\<close> gives \<open>NaN\<close>, which then stays.\<close>

definition add_total :: "jsnum \<Rightarrow> entry \<Rightarrow> jsnum" where
  "add_total acc v =
     (case acc of NaN \<Rightarrow> NaN
      | Num s \<Rightarrow> (case entry_total v of None \<Rightarrow> NaN | Some t \<Rightarrow> Num (s + t))
      | PosInfinity \<Rightarrow> (case entry_total v of None \<Rightarrow> NaN | Some t \<Rightarrow> PosInfinity)
      | NegInfinity \<Rightarrow> (case entry_total v of None \<Rightarrow> NaN | Some t \<Rightarrow> NegInfinity))"

definition maxVendors :: nat where
  "maxVendors = 50"

definition maxAgencies :: nat where
  "maxAgencies = 30"

text \<open>
  What \<open>MatrixChart.render\<close> puts on the page: the row and column headers with their
  totals, the cells it shows and the grand total; \<open>None\<close> is the empty state.
\<close>

definition matrix_render ::
  "(string \<Rightarrow> string \<Rightarrow> int) \<Rightarrow> filter_state \<Rightarrow> contract list \<Rightarrow> matrix_view option" where
  "matrix_render lc st data =
     (if length data = 0 then None
      else
        (let matrixData = aggregateForMatrix lc data (sortBy st)
         in if length (vendors matrixData) = 0 \<or> length (agencies matrixData) = 0 then None
            else
              (let vo = limit_entries maxVendors (vendors matrixData) (vendorTotals matrixData);
                   ao = limit_entries maxAgencies (agencies matrixData)
                          (agencyTotals matrixData)
               in Some
                    \<lparr>vendorOrder = vo, agencyOrder = ao,
                     shown_cells =
                       map (\<lambda>v. map (\<lambda>a. cell_at (matrix matrixData)
                                              (entry_index v) (entry_index a)) ao) vo,
                     grandTotal = foldl add_total (Num 0) vo\<rparr>)))"

section \<open>Windowing in the flow diagram (sankey.js)\<close>

record view_node = node +
  index :: nat

record sankey_view =
  filteredNodes :: "view_node list"
  filteredLinks :: "link list"

definition maxLinks :: nat where
  "maxLinks = 100"

text \<open>\<open>links.sort((a, b) => b.value - a.value).slice(0, maxLinks)\<close>.\<close>

definition topLinks :: "link list \<Rightarrow> link list" where
  "topLinks ls = take maxLinks (js_sort (\<lambda>a b. link_value b - link_value a) ls)"

text \<open>The members of \<open>usedNodeIndices\<close>, in the order they are added.\<close>

definition usedNodeIndices :: "link list \<Rightarrow> nat option list" where
  "usedNodeIndices tops = concat (map (\<lambda>l. [source l, target l]) tops)"

record rebuild_acc =
  nodeMap :: "(nat, nat) jsmap"
  kept :: "view_node list"

definition rebuild_step :: "nat option list \<Rightarrow> rebuild_acc \<Rightarrow> nat \<times> node \<Rightarrow> rebuild_acc" where
  "rebuild_step used s p =
     (if List.member used (Some (fst p))
      then \<lparr>nodeMap = map_set (nodeMap s) (fst p) (length (kept s)),
            kept = kept s @
              [\<lparr>node_name = node_name (snd p), node_type = node_type (snd p),
                node_id = node_id (snd p), node_total = node_total (snd p),
                index = length (kept s)\<rparr>]\<rparr>
      else s)"

text \<open>\<open>nodeMap.get(link.source)\<close>, where the source may be \<open>undefined\<close>.\<close>

definition get_opt :: "(nat, nat) jsmap \<Rightarrow> nat option \<Rightarrow> nat option" where
  "get_opt m k = (case k of None \<Rightarrow> None | Some i \<Rightarrow> map_get m i)"

definition sankey_window :: "sankey \<Rightarrow> sankey_view" where
  "sankey_window sankeyData =
     (let tops = topLinks (links sankeyData);
          used = usedNodeIndices tops;
          rb = foldl (rebuild_step used) \<lparr>nodeMap = [], kept = []\<rparr>
                 (enumerate 0 (nodes sankeyData))
      in \<lparr>filteredNodes = kept rb,
          filteredLinks =
            filter (\<lambda>l. source l \<noteq> None \<and> target l \<noteq> None)
              (map (\<lambda>l. l\<lparr>source := get_opt (nodeMap rb) (source l),
                             target := get_opt (nodeMap rb) (target l)\<rparr>) tops)\<rparr>)"

text \<open>
  The graph that \<open>SankeyChart.render\<close> hands to the layout; \<open>None\<close> is the empty state.
\<close>

definition sankey_render ::
  "(string \<Rightarrow> string \<Rightarrow> int) \<Rightarrow> filter_state \<Rightarrow> contract list \<Rightarrow> sankey_view option" where
  "sankey_render lc st data =
     (if length data = 0 then None
      else
        (let sankeyData = aggregateForSankey lc data (sortBy st)
         in if length (nodes sankeyData) = 0 \<or> length (links sankeyData) = 0 then None
            else
              (let w = sankey_window sankeyData
               in if length (filteredNodes w) = 0 \<or> length (filteredLinks w) = 0 then None
                  else Some w)))"

section \<open>Predicates of the specification\<close>

text \<open>
  The filter dimensions as the specification words them: an empty query or selection lets
  every record pass, and a text field matches a query when it is present, not empty, and
  contains the query as a substring once the host's case fold \<open>lower\<close> has been applied
  to both.
\<close>

definition query_ok :: "(string \<Rightarrow> string) \<Rightarrow> filter_state \<Rightarrow> contract \<Rightarrow> bool" where
  "query_ok lower st r =
     (searchQuery st = [] \<or> search_match lower (lower (searchQuery st)) r)"

definition vendor_ok :: "filter_state \<Rightarrow> contract \<Rightarrow> bool" where
  "vendor_ok st r =
     (selectedVendors st = [] \<or> selected_has (selectedVendors st) (vendor_name r))"

definition agency_ok :: "filter_state \<Rightarrow> contract \<Rightarrow> bool" where
  "agency_ok st r =
     (selectedAgencies st = [] \<or> selected_has (selectedAgencies st) (agency_name r))"

definition contains_ci :: "(string \<Rightarrow> string) \<Rightarrow> string option \<Rightarrow> string \<Rightarrow> bool" where
  "contains_ci lower field q =
     (case field of None \<Rightarrow> False
      | Some f \<Rightarrow> f \<noteq> [] \<and> sublist (lower q) (lower f))"

definition text_match :: "(string \<Rightarrow> string) \<Rightarrow> string \<Rightarrow> contract \<Rightarrow> bool" where
  "text_match lower q r =
     (contains_ci lower (vendor_name r) q \<or> contains_ci lower (agency_name r) q \<or>
      contains_ci lower (short_title r) q \<or> contains_ci lower (Some (additional_info r)) q)"

section \<open>Auxiliary notions for the proofs\<close>

text \<open>
  One round of a rollup map, for a record key \<open>key\<close>; the vendor and agency totals and
  counts of both projections are folds of these.
\<close>

definition tally :: "(contract \<Rightarrow> string) \<Rightarrow> (string, real) jsmap \<Rightarrow> contract \<Rightarrow> (string, real) jsmap" where
  "tally key m r = map_set m (key r) (get_or_zero m (key r) + amount_of r)"

definition tally_count :: "(contract \<Rightarrow> string) \<Rightarrow> (string, nat) jsmap \<Rightarrow> contract \<Rightarrow> (string, nat) jsmap" where
  "tally_count key m r = map_set m (key r) (get_or_zero_nat m (key r) + 1)"

definition totals_of :: "(contract \<Rightarrow> string) \<Rightarrow> contract list \<Rightarrow> (string, real) jsmap" where
  "totals_of key data = foldl (tally key) [] data"

definition counts_of :: "(contract \<Rightarrow> string) \<Rightarrow> contract list \<Rightarrow> (string, nat) jsmap" where
  "counts_of key data = foldl (tally_count key) [] data"

text \<open>The bucket key of a record, and the amount of the records with a given key.\<close>

definition rec_key :: "contract \<Rightarrow> string" where
  "rec_key r = pair_key (vendor_of r) (agency_of r)"


text \<open>The common shape of \<open>add_vendor\<close> and \<open>add_agency\<close>.\<close>

definition push_node :: "(string \<Rightarrow> node) \<Rightarrow> (string \<Rightarrow> string) \<Rightarrow> node_acc \<Rightarrow> string \<Rightarrow> node_acc" where
  "push_node mk key s x =
     \<lparr>acc_nodes = acc_nodes s @ [mk x],
      nodeIndex = map_set (nodeIndex s) (key x) (length (acc_nodes s))\<rparr>"

text \<open>The comparator of \<open>topLinks\<close>.\<close>

definition by_value :: "link \<Rightarrow> link \<Rightarrow> real" where
  "by_value a b = link_value b - link_value a"

text \<open>The bucket of a key after one more record with that key.\<close>

definition grown :: "bucket option \<Rightarrow> contract \<Rightarrow> bucket" where
  "grown ob r =
     (case ob of
        None \<Rightarrow> \<lparr>amount = amount_of r, count = 1, vendor = vendor_of r,
                  agency = agency_of r, contracts = [r]\<rparr>
      | Some b \<Rightarrow> b\<lparr>amount := amount b + amount_of r, count := count b + 1,
                     contracts := contracts b @ [r]\<rparr>)"

text \<open>The nodes pushed for a vendor and for an agency, and the entity orders.\<close>

definition vendor_node :: "(string, real) jsmap \<Rightarrow> string \<Rightarrow> node" where
  "vendor_node vtot v =
     \<lparr>node_name = v, node_type = Vendor, node_id = ''vendor:'' @ v,
      node_total = map_get vtot v\<rparr>"

definition agency_node :: "(string, real) jsmap \<Rightarrow> string \<Rightarrow> node" where
  "agency_node atot a =
     \<lparr>node_name = a, node_type = Agency, node_id = ''agency:'' @ a,
      node_total = map_get atot a\<rparr>"

definition sorted_vendors :: "(string \<Rightarrow> string \<Rightarrow> int) \<Rightarrow> string \<Rightarrow> contract list \<Rightarrow> string list" where
  "sorted_vendors lc sb data =
     order_entities lc sb (totals_of vendor_of data) (counts_of vendor_of data)"

definition sorted_agencies :: "(string \<Rightarrow> string \<Rightarrow> int) \<Rightarrow> string \<Rightarrow> contract list \<Rightarrow> string list" where
  "sorted_agencies lc sb data =
     order_entities lc sb (totals_of agency_of data) (counts_of agency_of data)"

definition node_table :: "(string \<Rightarrow> string \<Rightarrow> int) \<Rightarrow> string \<Rightarrow> contract list \<Rightarrow> node_acc" where
  "node_table lc sb data =
     foldl (push_node (agency_node (totals_of agency_of data)) (\<lambda>a. ''agency:'' @ a))
       (foldl (push_node (vendor_node (totals_of vendor_of data)) (\<lambda>v. ''vendor:'' @ v))
          \<lparr>acc_nodes = [], nodeIndex = []\<rparr> (sorted_vendors lc sb data))
       (sorted_agencies lc sb data)"

text \<open>What an edge carries apart from the positions of its two nodes.\<close>

definition link_summary :: "link \<Rightarrow> string \<times> string \<times> real \<times> nat \<times> contract list" where
  "link_summary l = (link_vendor l, link_agency l, link_value l, link_count l, link_contracts l)"

section \<open>Concrete inputs\<close>

definition mk_contract :: "string \<Rightarrow> string \<Rightarrow> real \<Rightarrow> contract" where
  "mk_contract v a x =
     \<lparr>vendor_name = Some v, agency_name = Some a, contract_amount = x,
      short_title = None, additional_info = [], start_date_parsed = None,
      end_date_parsed = None\<rparr>"

text \<open>A collation under which all names are equal, for inputs sorted by amount.\<close>

definition no_collation :: "string \<Rightarrow> string \<Rightarrow> int" where
  "no_collation a b = 0"

text \<open>
  The other two builtins of the host are needed only on the plain ASCII strings of the
  inputs below. On such strings \<open>toLowerCase\<close> folds the letters A to Z and leaves
  every other character as it is.
\<close>

definition ascii_lower_char :: "char \<Rightarrow> char" where
  "ascii_lower_char c =
     (if 65 \<le> (of_char c :: nat) \<and> (of_char c :: nat) \<le> 90
      then char_of (of_char c + 32 :: nat) else c)"

definition ascii_lower :: "string \<Rightarrow> string" where
  "ascii_lower s = map ascii_lower_char s"






definition state_of :: "string \<Rightarrow> string \<Rightarrow> filter_state" where
  "state_of q sb =
     \<lparr>searchQuery = q, selectedVendors = [], selectedAgencies = [], sortBy = sb\<rparr>"

definition sample :: "contract list" where
  "sample = [mk_contract ''Bolt'' ''DOT'' 5, mk_contract ''Acme'' ''Parks'' 10]"

text \<open>The scenario of the specification: three records over two vendors and two agencies.\<close>

definition scenario :: "contract list" where
  "scenario =
     [mk_contract ''A'' ''X'' 100, mk_contract ''A'' ''Y'' 50, mk_contract ''B'' ''X'' 25]"

text \<open>Two records of different vendor and agency whose bucket keys are the same string.\<close>

definition colliding :: "contract list" where
  "colliding = [mk_contract ''A|||B'' ''C'' 1, mk_contract ''A'' ''B|||C'' 2]"

text \<open>
  Fifty-one records of amount 1, each with a vendor of its own (a one-character name), and
  thirty-one records with an agency of their own, the \<open>i\<close>-th of amount \<open>i\<close>.
\<close>

definition many_vendors :: "contract list" where
  "many_vendors = map (\<lambda>i. mk_contract [char_of (48 + i)] ''A'' 1) [1..<52]"

definition many_agencies :: "contract list" where
  "many_agencies = map (\<lambda>i. mk_contract ''V'' [char_of (48 + i)] (real i)) [1..<32]"

text \<open>
  A service that always answers with a full page, and rows whose amount is negative,
  whose names are absent or empty, and whose amount is no number.
\<close>

definition blank_row :: raw_row where
  "blank_row =
     \<lparr>raw_vendor_name = Some ''V'', raw_agency_name = Some ''A'',
      raw_contract_amount = Some ''1'', raw_short_title = None, other_info_1 = None,
      other_info_2 = None, other_info_3 = None, start_date = None, end_date = None\<rparr>"

definition full_pages :: service where
  "full_pages offset limit = Inr (replicate limit blank_row)"




text \<open>A record of amount 7.5 without names, title or additional info.\<close>

definition nameless :: contract where
  "nameless =
     \<lparr>vendor_name = None, agency_name = Some [], contract_amount = 15 / 2,
      short_title = None, additional_info = [], start_date_parsed = None,
      end_date_parsed = None\<rparr>"

section \<open>Basic facts\<close>

lemma or_zero_id [simp]: "or_zero x = x"
  by (simp add: or_zero_def)

lemma set_insert_sorted [simp]: "set (insert_sorted cmp x xs) = insert x (set xs)"
  by (induction xs) auto

lemma length_insert_sorted [simp]: "length (insert_sorted cmp x xs) = Suc (length xs)"
  by (induction xs) auto

lemma js_sort_Nil [simp]: "js_sort cmp [] = []"
  by (simp add: js_sort_def)

lemma js_sort_Cons: "js_sort cmp (x # xs) = insert_sorted cmp x (js_sort cmp xs)"
  by (simp add: js_sort_def)

lemma set_js_sort [simp]: "set (js_sort cmp xs) = set xs"
  by (induction xs) (auto simp: js_sort_Cons)

lemma length_js_sort [simp]: "length (js_sort cmp xs) = length xs"
  by (induction xs) (auto simp: js_sort_Cons)

lemma str_includes_sublist: "str_includes hay needle \<longleftrightarrow> sublist needle hay"
  by (induction hay) (auto simp: sublist_Cons_right)

lemma field_matches_contains:
  "field_matches lower (lower q) f = contains_ci lower f q"
  by (cases f) (auto simp: field_matches_def contains_ci_def str_includes_sublist)

lemma search_match_text:
  "search_match lower (lower q) r = text_match lower q r"
  by (simp add: search_match_def text_match_def field_matches_contains)

lemma deref_new [simp]: "deref (h @ [xs]) (length h) = xs"
  by (simp add: deref_def)

lemma sortData_store:
  "sortData lc lower st h data =
     (h @ [js_sort (record_cmp lc lower (sortBy st)) (deref h data)], length h)"
  by (simp add: sortData_def spread_def new_array_def sort_array_def)

lemma sortData_value_eq:
  "sortData_value lc lower st data = js_sort (record_cmp lc lower (sortBy st)) data"
  by (simp add: sortData_value_def sortData_store deref_def)

lemma filter_array_store:
  "filter_array p h a = (h @ [filter p (deref h a)], length h)"
  by (simp add: filter_array_def new_array_def)


lemma filter_query_ok:
  "filter (query_ok lower st) xs =
     (if searchQuery st = [] then xs
      else filter (search_match lower (lower (searchQuery st))) xs)"
  by (induction xs) (auto simp: query_ok_def)

lemma filter_vendor_ok:
  "filter (vendor_ok st) xs =
     (if selectedVendors st = [] then xs
      else filter (\<lambda>r. selected_has (selectedVendors st) (vendor_name r)) xs)"
  by (induction xs) (auto simp: vendor_ok_def)

lemma filter_agency_ok:
  "filter (agency_ok st) xs =
     (if selectedAgencies st = [] then xs
      else filter (\<lambda>r. selected_has (selectedAgencies st) (agency_name r)) xs)"
  by (induction xs) (auto simp: agency_ok_def)

lemma applyFilters_store:
  "prefix h (fst (applyFilters lc lower st h data)) \<and>
   length h \<le> snd (applyFilters lc lower st h data) \<and>
   deref (fst (applyFilters lc lower st h data)) (snd (applyFilters lc lower st h data)) =
     js_sort (record_cmp lc lower (sortBy st))
       (filter (agency_ok st) (filter (vendor_ok st) (filter (query_ok lower st) (deref h data))))"
  by (simp add: applyFilters_def spread_def new_array_def sortData_store filter_array_store
      filter_query_ok filter_vendor_ok filter_agency_ok Let_def prefix_def deref_def nth_append)

lemma applyFilters_value_eq:
  "applyFilters_value lc lower st data =
     js_sort (record_cmp lc lower (sortBy st))
       (filter (agency_ok st) (filter (vendor_ok st) (filter (query_ok lower st) data)))"
  using applyFilters_store[of "[data]" lc lower st 0]
  by (simp add: applyFilters_value_def case_prod_beta deref_def)

section \<open>The rollup maps\<close>

lemma map_of_map_set: "map_of (map_set m k v) = (map_of m)(k \<mapsto> v)"
  by (simp add: map_set_def update_conv')

lemma keys_map_set: "fst ` set (map_set m k v) = insert k (fst ` set m)"
  by (simp add: map_set_def dom_update)

lemma distinct_map_set: "distinct (map fst m) \<Longrightarrow> distinct (map fst (map_set m k v))"
  by (simp add: map_set_def distinct_update)

lemma sankey_step_vendorTotals:
  "sk_vendorTotals (sankey_step s r) = tally vendor_of (sk_vendorTotals s) r"
  by (simp add: sankey_step_def tally_def Let_def)

lemma sankey_step_agencyTotals:
  "sk_agencyTotals (sankey_step s r) = tally agency_of (sk_agencyTotals s) r"
  by (simp add: sankey_step_def tally_def Let_def)

lemma matrix_step_maps:
  "vendorTotalsMap (matrix_step s r) = tally vendor_of (vendorTotalsMap s) r"
  "agencyTotalsMap (matrix_step s r) = tally agency_of (agencyTotalsMap s) r"
  "vendorCountsMap (matrix_step s r) = tally_count vendor_of (vendorCountsMap s) r"
  "agencyCountsMap (matrix_step s r) = tally_count agency_of (agencyCountsMap s) r"
  by (simp_all add: matrix_step_def tally_def tally_count_def Let_def)

lemma count_step_maps:
  "fst (count_step c r) = tally_count vendor_of (fst c) r"
  "snd (count_step c r) = tally_count agency_of (snd c) r"
  by (simp_all add: count_step_def tally_count_def Let_def)

lemma sankey_group_totals:
  "sk_vendorTotals (sankey_group data) = totals_of vendor_of data"
  "sk_agencyTotals (sankey_group data) = totals_of agency_of data"
  unfolding sankey_group_def totals_of_def
  by (induction data rule: rev_induct)
    (simp_all add: sankey_step_vendorTotals sankey_step_agencyTotals)

lemma matrix_group_maps:
  "vendorTotalsMap (matrix_group data) = totals_of vendor_of data"
  "agencyTotalsMap (matrix_group data) = totals_of agency_of data"
  "vendorCountsMap (matrix_group data) = counts_of vendor_of data"
  "agencyCountsMap (matrix_group data) = counts_of agency_of data"
  unfolding matrix_group_def totals_of_def counts_of_def
  by (induction data rule: rev_induct) (simp_all add: matrix_step_maps)

lemma count_fold_maps:
  "fst (foldl count_step ([], []) data) = counts_of vendor_of data"
  "snd (foldl count_step ([], []) data) = counts_of agency_of data"
  unfolding counts_of_def
  by (induction data rule: rev_induct) (simp_all add: count_step_maps)

lemma totals_of_snoc: "totals_of key (xs @ [x]) = tally key (totals_of key xs) x"
  by (simp add: totals_of_def)

lemma counts_of_snoc: "counts_of key (xs @ [x]) = tally_count key (counts_of key xs) x"
  by (simp add: counts_of_def)

lemma keys_totals_of: "fst ` set (totals_of key data) = key ` set data"
  by (induction data rule: rev_induct)
    (auto simp: totals_of_snoc tally_def keys_map_set totals_of_def)

lemma keys_counts_of: "fst ` set (counts_of key data) = key ` set data"
  by (induction data rule: rev_induct)
    (auto simp: counts_of_snoc tally_count_def keys_map_set counts_of_def)

lemma distinct_totals_of: "distinct (map fst (totals_of key data))"
  by (induction data rule: rev_induct)
    (auto simp: totals_of_snoc tally_def distinct_map_set totals_of_def)

lemma distinct_counts_of: "distinct (map fst (counts_of key data))"
  by (induction data rule: rev_induct)
    (auto simp: counts_of_snoc tally_count_def distinct_map_set counts_of_def)



section \<open>Sorting\<close>

lemma sorted_insert_sorted:
  assumes tot: "\<And>a b. cmp a b \<le> 0 \<or> cmp b a \<le> 0"
    and tr: "\<And>a b c. cmp a b \<le> 0 \<Longrightarrow> cmp b c \<le> 0 \<Longrightarrow> cmp a c \<le> 0"
  shows "sorted_wrt (\<lambda>a b. cmp a b \<le> 0) xs \<Longrightarrow>
    sorted_wrt (\<lambda>a b. cmp a b \<le> 0) (insert_sorted cmp x xs)"
proof (induction xs)
  case Nil
  show ?case by simp
next
  case (Cons y ys)
  show ?case
  proof (cases "cmp x y \<le> 0")
    case True
    with Cons.prems tr show ?thesis
      by auto
  next
    case False
    with tot have "cmp y x \<le> 0"
      by blast
    with False Cons show ?thesis
      by auto
  qed
qed

lemma sorted_js_sort:
  assumes "\<And>a b. cmp a b \<le> 0 \<or> cmp b a \<le> 0"
    and "\<And>a b c. cmp a b \<le> 0 \<Longrightarrow> cmp b c \<le> 0 \<Longrightarrow> cmp a c \<le> 0"
  shows "sorted_wrt (\<lambda>a b. cmp a b \<le> 0) (js_sort cmp xs)"
  by (induction xs) (simp_all add: js_sort_Cons sorted_insert_sorted[OF assms])

lemma map_insert_sorted:
  "(\<And>a b. cmp a b = cmp' (f a) (f b)) \<Longrightarrow>
   map f (insert_sorted cmp x xs) = insert_sorted cmp' (f x) (map f xs)"
  by (induction xs) auto

lemma map_js_sort:
  "(\<And>a b. cmp a b = cmp' (f a) (f b)) \<Longrightarrow>
   map f (js_sort cmp xs) = js_sort cmp' (map f xs)"
  by (induction xs) (simp_all add: js_sort_Cons map_insert_sorted)

lemma distinct_map_insert_sorted:
  "distinct (map f (insert_sorted cmp x xs)) = distinct (map f (x # xs))"
  by (induction xs) auto

lemma distinct_map_js_sort: "distinct (map f (js_sort cmp xs)) = distinct (map f xs)"
  by (induction xs) (simp_all add: js_sort_Cons distinct_map_insert_sorted)

lemma set_order_entities:
  "fst ` set counts = fst ` set totals \<Longrightarrow>
   set (order_entities lc sb totals counts) = fst ` set totals"
  by (simp add: order_entities_def)

lemma distinct_order_entities:
  "distinct (map fst totals) \<Longrightarrow> distinct (map fst counts) \<Longrightarrow>
   distinct (order_entities lc sb totals counts)"
  by (simp add: order_entities_def distinct_map_js_sort)
    (metis distinct_map_js_sort list.map_ident)

lemma length_order_entities:
  "length counts = length totals \<Longrightarrow>
   length (order_entities lc sb totals counts) = length totals"
  by (simp add: order_entities_def)

section \<open>The bucket map\<close>

lemma linkMap_step:
  "linkMap (sankey_step s r) =
     map_set (linkMap s) (rec_key r) (grown (map_of (linkMap s) (rec_key r)) r)"
  by (cases "map_of (linkMap s) (rec_key r)")
    (simp_all add: sankey_step_def Let_def rec_key_def map_has_def map_get_def
      grown_def map_set_def update_conv')

lemma matrixMap_step:
  "matrixMap (matrix_step s r) =
     map_set (matrixMap s) (rec_key r)
       (case map_of (matrixMap s) (rec_key r) of
          None \<Rightarrow> \<lparr>amount = amount_of r, count = 1\<rparr>
        | Some c \<Rightarrow> c\<lparr>amount := amount c + amount_of r, count := count c + 1\<rparr>)"
  by (cases "map_of (matrixMap s) (rec_key r)")
    (simp_all add: matrix_step_def Let_def rec_key_def map_has_def map_get_def
      map_set_def update_conv')

lemma sankey_group_snoc: "sankey_group (xs @ [x]) = sankey_step (sankey_group xs) x"
  by (simp add: sankey_group_def)

lemma matrix_group_snoc: "matrix_group (xs @ [x]) = matrix_step (matrix_group xs) x"
  by (simp add: matrix_group_def)

lemma set_map_set_subset: "set (map_set m k v) \<subseteq> insert (k, v) (set m)"
  unfolding map_set_def by (induction m) auto

lemma bucket_labels:
  "(k, b) \<in> set (linkMap (sankey_group data)) \<Longrightarrow>
   vendor b \<in> vendor_of ` set data \<and> agency b \<in> agency_of ` set data"
proof (induction data arbitrary: k b rule: rev_induct)
  case Nil
  then show ?case by (simp add: sankey_group_def)
next
  case (snoc x xs)
  let ?lm = "linkMap (sankey_group xs)"
  from snoc.prems have "(k, b) \<in> insert (rec_key x, grown (map_of ?lm (rec_key x)) x) (set ?lm)"
    using set_map_set_subset[of ?lm "rec_key x" "grown (map_of ?lm (rec_key x)) x"]
    by (auto simp: sankey_group_snoc linkMap_step)
  then consider "b = grown (map_of ?lm (rec_key x)) x" | "(k, b) \<in> set ?lm"
    by auto
  then show ?case
  proof cases
    case 1
    show ?thesis
    proof (cases "map_of ?lm (rec_key x)")
      case None
      with 1 show ?thesis by (simp add: grown_def)
    next
      case (Some b0)
      then have "(rec_key x, b0) \<in> set ?lm"
        by (rule map_of_SomeD)
      from snoc.IH[OF this] 1 Some show ?thesis
        by (auto simp: grown_def)
    qed
  next
    case 2
    from snoc.IH[OF this] show ?thesis by auto
  qed
qed



section \<open>Nodes and their indices\<close>

lemma add_vendor_push:
  "add_vendor vtot = push_node (vendor_node vtot) (\<lambda>v. ''vendor:'' @ v)"
  by (rule ext, rule ext) (simp add: add_vendor_def push_node_def vendor_node_def)

lemma add_agency_push:
  "add_agency atot = push_node (agency_node atot) (\<lambda>a. ''agency:'' @ a)"
  by (rule ext, rule ext) (simp add: add_agency_def push_node_def agency_node_def)

lemma aggregateForSankey_eq:
  "aggregateForSankey lc data sb =
     \<lparr>nodes = acc_nodes (node_table lc sb data),
      links = map (make_link (nodeIndex (node_table lc sb data)))
                (map snd (linkMap (sankey_group data)))\<rparr>"
  by (simp add: aggregateForSankey_def Let_def node_table_def sorted_vendors_def
      sorted_agencies_def sankey_group_totals count_fold_maps add_vendor_push add_agency_push)

lemma aggregateForMatrix_eq:
  "aggregateForMatrix lc data sb =
     \<lparr>vendors = sorted_vendors lc sb data,
      agencies = sorted_agencies lc sb data,
      matrix = map (\<lambda>v. map (\<lambda>a. matrix_cell (matrixMap (matrix_group data)) v a)
                 (sorted_agencies lc sb data)) (sorted_vendors lc sb data),
      vendorTotals = map (map_get (totals_of vendor_of data)) (sorted_vendors lc sb data),
      agencyTotals = map (map_get (totals_of agency_of data)) (sorted_agencies lc sb data)\<rparr>"
  by (simp add: aggregateForMatrix_def Let_def sorted_vendors_def sorted_agencies_def
      matrix_group_maps)

lemma set_sorted_vendors: "set (sorted_vendors lc sb data) = vendor_of ` set data"
  by (simp add: sorted_vendors_def set_order_entities keys_totals_of keys_counts_of)

lemma set_sorted_agencies: "set (sorted_agencies lc sb data) = agency_of ` set data"
  by (simp add: sorted_agencies_def set_order_entities keys_totals_of keys_counts_of)

lemma distinct_sorted_vendors: "distinct (sorted_vendors lc sb data)"
  by (simp add: sorted_vendors_def distinct_order_entities distinct_totals_of
      distinct_counts_of)

lemma distinct_sorted_agencies: "distinct (sorted_agencies lc sb data)"
  by (simp add: sorted_agencies_def distinct_order_entities distinct_totals_of
      distinct_counts_of)

lemma push_node_sel:
  "acc_nodes (push_node mk key s x) = acc_nodes s @ [mk x]"
  "nodeIndex (push_node mk key s x) = map_set (nodeIndex s) (key x) (length (acc_nodes s))"
  by (simp_all add: push_node_def)

lemma push_fold_nodes:
  "acc_nodes (foldl (push_node mk key) s xs) = acc_nodes s @ map mk xs"
  by (induction xs rule: rev_induct) (simp_all add: push_node_sel)

lemma push_fold_bounded:
  assumes "\<And>k i. map_of (nodeIndex s) k = Some i \<Longrightarrow> i < length (acc_nodes s)"
  shows "map_of (nodeIndex (foldl (push_node mk key) s xs)) k = Some i \<Longrightarrow>
    i < length (acc_nodes (foldl (push_node mk key) s xs))"
proof (induction xs arbitrary: k i rule: rev_induct)
  case Nil
  with assms show ?case by simp
next
  case (snoc x xs)
  show ?case
  proof (cases "k = key x")
    case True
    with snoc.prems show ?thesis
      by (simp add: push_node_sel map_of_map_set)
  next
    case False
    with snoc.prems have "map_of (nodeIndex (foldl (push_node mk key) s xs)) k = Some i"
      by (simp add: push_node_sel map_of_map_set)
    from snoc.IH[OF this] show ?thesis
      by (simp add: push_node_sel)
  qed
qed

lemma push_fold_keeps:
  "map_of (nodeIndex s) k \<noteq> None \<Longrightarrow>
   map_of (nodeIndex (foldl (push_node mk key) s xs)) k \<noteq> None"
  by (induction xs rule: rev_induct) (simp_all add: push_node_sel map_of_map_set)

lemma push_fold_has:
  "x \<in> set xs \<Longrightarrow> map_of (nodeIndex (foldl (push_node mk key) s xs)) (key x) \<noteq> None"
  by (induction xs rule: rev_induct) (auto simp: push_node_sel map_of_map_set)

lemma length_nodes:
  "length (acc_nodes (node_table lc sb data)) =
     length (sorted_vendors lc sb data) + length (sorted_agencies lc sb data)"
  by (simp add: node_table_def push_fold_nodes)

lemma node_table_bounded:
  "map_of (nodeIndex (node_table lc sb data)) k = Some i \<Longrightarrow>
   i < length (acc_nodes (node_table lc sb data))"
  unfolding node_table_def
  by (erule push_fold_bounded[rotated], erule push_fold_bounded[rotated]) simp

lemma node_table_vendor:
  "v \<in> vendor_of ` set data \<Longrightarrow>
   map_of (nodeIndex (node_table lc sb data)) (''vendor:'' @ v) \<noteq> None"
  unfolding node_table_def
  by (rule push_fold_keeps, rule push_fold_has[where key = "\<lambda>v. ''vendor:'' @ v"])
    (simp add: set_sorted_vendors)

lemma node_table_agency:
  "a \<in> agency_of ` set data \<Longrightarrow>
   map_of (nodeIndex (node_table lc sb data)) (''agency:'' @ a) \<noteq> None"
  unfolding node_table_def
  by (rule push_fold_has[where key = "\<lambda>a. ''agency:'' @ a"]) (simp add: set_sorted_agencies)

lemma link_ends:
  assumes "l \<in> set (links (aggregateForSankey lc data sb))"
  shows "\<exists>i j. source l = Some i \<and> target l = Some j \<and>
    i < length (nodes (aggregateForSankey lc data sb)) \<and>
    j < length (nodes (aggregateForSankey lc data sb))"
proof -
  from assms obtain k b where kb: "(k, b) \<in> set (linkMap (sankey_group data))"
    and l: "l = make_link (nodeIndex (node_table lc sb data)) b"
    by (auto simp: aggregateForSankey_eq)
  from bucket_labels[OF kb] have "vendor b \<in> vendor_of ` set data"
    "agency b \<in> agency_of ` set data"
    by simp_all
  then obtain i j where i: "map_of (nodeIndex (node_table lc sb data)) (''vendor:'' @ vendor b) = Some i"
    and j: "map_of (nodeIndex (node_table lc sb data)) (''agency:'' @ agency b) = Some j"
    using node_table_vendor[of "vendor b" data lc sb] node_table_agency[of "agency b" data lc sb]
    by auto
  from node_table_bounded[OF i] node_table_bounded[OF j] i j l show ?thesis
    by (simp add: make_link_def map_get_def aggregateForSankey_eq)
qed

section \<open>Filtering leaves the caller's array alone\<close>

text \<open>
  C10. \<open>Filters.applyFilters\<close> and \<open>Filters.sortData\<close> leave their input unchanged:
  when either call returns, the array the caller passed (a valid address \<open>data\<close> of the
  store) holds the same elements in the same order as before. Both calls work on fresh
  copies: every array that existed before the call is as it was, and the array returned
  is a new one.
\<close>

theorem filters_leave_input_unchanged:
  assumes "data < length h"
  shows "deref (fst (applyFilters lc lower st h data)) data = deref h data \<and>
   deref (fst (sortData lc lower st h data)) data = deref h data \<and>
   prefix h (fst (applyFilters lc lower st h data)) \<and>
   prefix h (fst (sortData lc lower st h data)) \<and>
   length h \<le> snd (applyFilters lc lower st h data) \<and>
   length h \<le> snd (sortData lc lower st h data)"
proof -
  have s: "prefix h (fst (sortData lc lower st h data))" "length h \<le> snd (sortData lc lower st h data)"
    by (simp_all add: sortData_store)
  have a: "prefix h (fst (applyFilters lc lower st h data))"
    "length h \<le> snd (applyFilters lc lower st h data)"
    using applyFilters_store[of h lc lower st data] by simp_all
  have k: "deref h' data = deref h data" if "prefix h h'" for h'
    using that assms by (auto simp: prefix_def deref_def nth_append)
  from s a k[OF s(1)] k[OF a(1)] show ?thesis
    by blast
qed

theorem filters_leave_input_unchanged_witness:
  "(0::nat) < length [sample] \<and>
   deref (fst (applyFilters no_collation ascii_lower (state_of ''ac'' ''amount-desc'') [sample] 0)) 0 = sample \<and>
   deref (fst (sortData no_collation ascii_lower (state_of ''ac'' ''amount-desc'') [sample] 0)) 0 = sample"
proof -
  have h: "(0::nat) < length [sample]"
    by simp
  have d: "deref [sample] 0 = sample"
    by (simp add: deref_def)
  note t = filters_leave_input_unchanged[OF h, where lc = no_collation
      and lower = ascii_lower and st = "state_of ''ac'' ''amount-desc''"]
  from t have a: "deref (fst (applyFilters no_collation ascii_lower (state_of ''ac'' ''amount-desc'')
      [sample] 0)) 0 = deref [sample] 0"
    by (rule conjunct1)
  from t have b: "deref (fst (sortData no_collation ascii_lower (state_of ''ac'' ''amount-desc'')
      [sample] 0)) 0 = deref [sample] 0"
    by (rule conjunct2[THEN conjunct1])
  from h a b show ?thesis
    unfolding d by blast
qed

section \<open>The search predicate\<close>

text \<open>
  C7. With the empty search query the filter evaluator lets every record through, so the
  result is the input narrowed by the other active filters (and sorted). With a non-empty
  query a record passes exactly when at least one of vendor name, agency name, short
  title and additional info contains the query as a case-insensitive substring, again
  together with the other filters; case is ignored by applying the host's
  \<open>toLowerCase\<close> to the field and to the query, whatever that fold is, and an absent
  or empty field never matches. A query that no text field of any record contains gives
  the empty collection.
\<close>

theorem search_filter:
  "(searchQuery st = [] \<longrightarrow>
      applyFilters_value lc lower st data =
        sortData_value lc lower st (filter (\<lambda>r. vendor_ok st r \<and> agency_ok st r) data)) \<and>
   (searchQuery st \<noteq> [] \<longrightarrow>
      applyFilters_value lc lower st data =
        sortData_value lc lower st
          (filter (\<lambda>r. text_match lower (searchQuery st) r \<and> vendor_ok st r \<and> agency_ok st r) data) \<and>
      (r \<in> set (applyFilters_value lc lower st data) \<longleftrightarrow>
         r \<in> set data \<and> text_match lower (searchQuery st) r \<and> vendor_ok st r \<and> agency_ok st r)) \<and>
   (searchQuery st \<noteq> [] \<and>
    (vendor_name r = None \<or> vendor_name r = Some []) \<and>
    (agency_name r = None \<or> agency_name r = Some []) \<and>
    (short_title r = None \<or> short_title r = Some []) \<and> additional_info r = [] \<longrightarrow>
      r \<notin> set (applyFilters_value lc lower st data)) \<and>
   (searchQuery st \<noteq> [] \<and> (\<forall>x \<in> set data. \<not> text_match lower (searchQuery st) x) \<longrightarrow>
      applyFilters_value lc lower st data = [])"
proof -
  have q: "filter (query_ok lower st) data = filter (text_match lower (searchQuery st)) data"
    if "searchQuery st \<noteq> []"
    using that by (simp add: filter_query_ok search_match_text cong: filter_cong)
  have e: "filter (query_ok lower st) data = data" if "searchQuery st = []"
    using that by (simp add: filter_query_ok)
  have c: "filter (agency_ok st) (filter (vendor_ok st) xs) =
      filter (\<lambda>r. vendor_ok st r \<and> agency_ok st r) xs" for xs
    by (induction xs) auto
  have d: "filter (\<lambda>r. vendor_ok st r \<and> agency_ok st r) (filter (text_match lower (searchQuery st)) xs) =
      filter (\<lambda>r. text_match lower (searchQuery st) r \<and> vendor_ok st r \<and> agency_ok st r) xs" for xs
    by (induction xs) auto
  have n: "filter (text_match lower (searchQuery st)) data = []"
    if "\<forall>x \<in> set data. \<not> text_match lower (searchQuery st) x"
    using that by (induction data) auto
  have base: "applyFilters_value lc lower st data =
      sortData_value lc lower st
        (filter (\<lambda>r. vendor_ok st r \<and> agency_ok st r) (filter (query_ok lower st) data))"
    by (simp only: applyFilters_value_eq sortData_value_eq c)
  have p1: "applyFilters_value lc lower st data =
      sortData_value lc lower st (filter (\<lambda>r. vendor_ok st r \<and> agency_ok st r) data)"
    if "searchQuery st = []"
    by (simp only: base e[OF that])
  have p2: "applyFilters_value lc lower st data =
      sortData_value lc lower st
        (filter (\<lambda>r. text_match lower (searchQuery st) r \<and> vendor_ok st r \<and> agency_ok st r) data)"
    if "searchQuery st \<noteq> []"
    by (simp only: base q[OF that] d)
  have p3: "r \<in> set (applyFilters_value lc lower st data) \<longleftrightarrow>
      r \<in> set data \<and> text_match lower (searchQuery st) r \<and> vendor_ok st r \<and> agency_ok st r"
    if "searchQuery st \<noteq> []"
    unfolding p2[OF that] sortData_value_eq set_js_sort by auto
  have p4: "applyFilters_value lc lower st data = []"
    if "searchQuery st \<noteq> []" "\<forall>x \<in> set data. \<not> text_match lower (searchQuery st) x"
    unfolding base q[OF that(1)] n[OF that(2)] sortData_value_eq by simp
  have p5: "r \<notin> set (applyFilters_value lc lower st data)"
    if "searchQuery st \<noteq> []"
      "vendor_name r = None \<or> vendor_name r = Some []"
      "agency_name r = None \<or> agency_name r = Some []"
      "short_title r = None \<or> short_title r = Some []" "additional_info r = []"
  proof -
    from that(2-5) have "\<not> text_match lower (searchQuery st) r"
      by (auto simp: text_match_def contains_ci_def)
    with p3[OF that(1)] show ?thesis
      by simp
  qed
  from p1 p2 p3 p4 p5 show ?thesis
    by blast
qed

theorem search_filter_witness:
  "searchQuery (state_of [] ''amount-desc'') = [] \<and>
   applyFilters_value no_collation ascii_lower (state_of [] ''amount-desc'') sample =
     [mk_contract ''Acme'' ''Parks'' 10, mk_contract ''Bolt'' ''DOT'' 5] \<and>
   searchQuery (state_of ''AC'' ''amount-desc'') \<noteq> [] \<and>
   applyFilters_value no_collation ascii_lower (state_of ''AC'' ''amount-desc'') sample =
     [mk_contract ''Acme'' ''Parks'' 10] \<and>
   \<not> text_match ascii_lower ''zz'' (mk_contract ''Acme'' ''Parks'' 10) \<and>
   \<not> text_match ascii_lower ''zz'' (mk_contract ''Bolt'' ''DOT'' 5) \<and>
   applyFilters_value no_collation ascii_lower (state_of ''zz'' ''amount-desc'') sample = [] \<and>
   vendor_name nameless = None \<and> agency_name nameless = Some [] \<and>
   short_title nameless = None \<and> additional_info nameless = [] \<and>
   nameless \<notin> set (applyFilters_value no_collation ascii_lower
     (state_of ''AC'' ''amount-desc'') (nameless # sample))"
proof -
  have m1: "text_match ascii_lower ''AC'' (mk_contract ''Acme'' ''Parks'' 10)"
    by code_simp
  have m2: "\<not> text_match ascii_lower ''AC'' (mk_contract ''Bolt'' ''DOT'' 5)"
    by code_simp
  have m3: "\<not> text_match ascii_lower ''zz'' (mk_contract ''Acme'' ''Parks'' 10)"
    by code_simp
  have m4: "\<not> text_match ascii_lower ''zz'' (mk_contract ''Bolt'' ''DOT'' 5)"
    by code_simp
  have ok: "vendor_ok (state_of q sb) x" "agency_ok (state_of q sb) x" for q sb x
    by (simp_all add: vendor_ok_def agency_ok_def state_of_def)
  have q: "searchQuery (state_of q sb) = q" for q sb
    by (simp add: state_of_def)
  have srt: "sortData_value no_collation ascii_lower (state_of q ''amount-desc'') sample =
      [mk_contract ''Acme'' ''Parks'' 10, mk_contract ''Bolt'' ''DOT'' 5]" for q
    by (simp add: sortData_value_eq sample_def state_of_def record_cmp_def sort_field_def
        sort_direction_def multiplier_def at_index_def js_sort_def amount_of_def mk_contract_def)
  have one: "sortData_value no_collation ascii_lower st [x] = [x]" for st x
    by (simp add: sortData_value_eq js_sort_def)
  have f1: "filter (\<lambda>r. vendor_ok (state_of [] ''amount-desc'') r \<and>
      agency_ok (state_of [] ''amount-desc'') r) sample = sample"
    by (simp add: ok)
  have f2: "filter (\<lambda>r. text_match ascii_lower ''AC'' r \<and> vendor_ok (state_of ''AC'' ''amount-desc'') r \<and>
      agency_ok (state_of ''AC'' ''amount-desc'') r) sample = [mk_contract ''Acme'' ''Parks'' 10]"
    by (simp add: ok sample_def m1 m2)
  have none: "\<forall>x \<in> set sample. \<not> text_match ascii_lower (searchQuery (state_of ''zz'' ''amount-desc'')) x"
    by (simp add: q sample_def m3 m4)
  have ne: "searchQuery (state_of ''AC'' ''amount-desc'') \<noteq> []"
    "searchQuery (state_of ''zz'' ''amount-desc'') \<noteq> []"
    by (simp_all add: q)
  have w1: "applyFilters_value no_collation ascii_lower (state_of [] ''amount-desc'') sample =
      [mk_contract ''Acme'' ''Parks'' 10, mk_contract ''Bolt'' ''DOT'' 5]"
    using search_filter[where st = "state_of [] ''amount-desc''" and lc = no_collation
        and lower = ascii_lower and data = sample]
    by (simp only: q f1 srt simp_thms)
  have w2: "applyFilters_value no_collation ascii_lower (state_of ''AC'' ''amount-desc'') sample =
      [mk_contract ''Acme'' ''Parks'' 10]"
    using search_filter[where st = "state_of ''AC'' ''amount-desc''" and lc = no_collation
        and lower = ascii_lower and data = sample] ne(1)
    by (simp only: q f2 one simp_thms)
  have w3: "applyFilters_value no_collation ascii_lower (state_of ''zz'' ''amount-desc'') sample = []"
    using search_filter[where st = "state_of ''zz'' ''amount-desc''" and lc = no_collation
        and lower = ascii_lower and data = sample] ne(2) none
    by blast
  have nl: "vendor_name nameless = None" "agency_name nameless = Some []"
    "short_title nameless = None" "additional_info nameless = []"
    by (simp_all add: nameless_def)
  have w4: "nameless \<notin> set (applyFilters_value no_collation ascii_lower
      (state_of ''AC'' ''amount-desc'') (nameless # sample))"
    using search_filter[where st = "state_of ''AC'' ''amount-desc''" and lc = no_collation
        and lower = ascii_lower and data = "nameless # sample" and r = nameless] ne(1) nl
    by blast
  from w1 w2 w3 w4 m3 m4 ne nl show ?thesis
    by (simp only: q simp_thms)
qed

section \<open>The window of the flow diagram\<close>

lemma rebuild_inv:
  "distinct (map fst ps) \<Longrightarrow>
   fst ` set (nodeMap (foldl (rebuild_step used) \<lparr>nodeMap = [], kept = []\<rparr> ps))
     \<subseteq> fst ` set ps \<and>
   (\<forall>n \<in> set (kept (foldl (rebuild_step used) \<lparr>nodeMap = [], kept = []\<rparr> ps)).
      \<exists>i \<in> fst ` set ps. Some i \<in> set used \<and>
        map_of (nodeMap (foldl (rebuild_step used) \<lparr>nodeMap = [], kept = []\<rparr> ps)) i =
          Some (index n)) \<and>
   (\<forall>i \<in> fst ` set ps. Some i \<in> set used \<longrightarrow>
      map_of (nodeMap (foldl (rebuild_step used) \<lparr>nodeMap = [], kept = []\<rparr> ps)) i \<noteq> None)"
proof (induction ps rule: rev_induct)
  case Nil
  show ?case by simp
next
  case (snoc p ps)
  let ?rb = "foldl (rebuild_step used) \<lparr>nodeMap = [], kept = []\<rparr> ps"
  from snoc.prems have d: "distinct (map fst ps)" and fresh: "fst p \<notin> fst ` set ps"
    by simp_all
  note ih = snoc.IH[OF d]
  from ih fresh have nokey: "map_of (nodeMap ?rb) (fst p) = None"
    by (metis (no_types, lifting) map_of_eq_None_iff subsetD)
  show ?case
  proof (cases "Some (fst p) \<in> set used")
    case False
    then have "rebuild_step used ?rb p = ?rb"
      by (simp add: rebuild_step_def)
    with ih False show ?thesis
      by auto
  next
    case True
    then have nm: "nodeMap (rebuild_step used ?rb p) =
        map_set (nodeMap ?rb) (fst p) (length (kept ?rb))"
      and kp: "kept (rebuild_step used ?rb p) = kept ?rb @
        [\<lparr>node_name = node_name (snd p), node_type = node_type (snd p),
          node_id = node_id (snd p), node_total = node_total (snd p),
          index = length (kept ?rb)\<rparr>]"
      by (simp_all add: rebuild_step_def)
    have a: "fst ` set (nodeMap (rebuild_step used ?rb p)) \<subseteq> fst ` set (ps @ [p])"
      using ih by (auto simp: nm keys_map_set)
    have b: "\<exists>i \<in> fst ` set (ps @ [p]). Some i \<in> set used \<and>
        map_of (nodeMap (rebuild_step used ?rb p)) i = Some (index n)"
      if "n \<in> set (kept (rebuild_step used ?rb p))" for n
    proof (cases "n \<in> set (kept ?rb)")
      case old: True
      with ih obtain i where i: "i \<in> fst ` set ps" "Some i \<in> set used"
        "map_of (nodeMap ?rb) i = Some (index n)"
        by blast
      from i(1) fresh have "i \<noteq> fst p" by blast
      with i show ?thesis
        by (auto simp: nm map_of_map_set)
    next
      case False
      with that have "index n = length (kept ?rb)"
        by (auto simp: kp)
      with True show ?thesis
        by (auto simp: nm map_of_map_set)
    qed
    have c: "map_of (nodeMap (rebuild_step used ?rb p)) i \<noteq> None"
      if "i \<in> fst ` set (ps @ [p])" "Some i \<in> set used" for i
      using that ih by (auto simp: nm map_of_map_set)
    from a b c show ?thesis
      by simp
  qed
qed

lemma topLinks_subset: "set (topLinks ls) \<subseteq> set ls"
  using set_take_subset[of maxLinks "js_sort (\<lambda>a b. link_value b - link_value a) ls"]
  by (simp add: topLinks_def)

lemma length_topLinks: "length (topLinks ls) \<le> 100"
  by (simp add: topLinks_def maxLinks_def)

lemma window_referenced:
  assumes ends: "\<And>l. l \<in> set (links sd) \<Longrightarrow>
      \<exists>i j. source l = Some i \<and> target l = Some j \<and> i < length (nodes sd) \<and> j < length (nodes sd)"
    and n: "n \<in> set (filteredNodes (sankey_window sd))"
  shows "\<exists>l \<in> set (filteredLinks (sankey_window sd)).
    source l = Some (index n) \<or> target l = Some (index n)"
proof -
  let ?tops = "topLinks (links sd)"
  let ?used = "usedNodeIndices ?tops"
  let ?ps = "enumerate 0 (nodes sd)"
  let ?rb = "foldl (rebuild_step ?used) \<lparr>nodeMap = [], kept = []\<rparr> ?ps"
  have keys: "fst ` set ?ps = {0..<length (nodes sd)}"
    by (metis list.set_map map_fst_enumerate set_upt add_0)
  have "distinct (map fst ?ps)"
    by simp
  note inv = rebuild_inv[OF this, of ?used]
  from n have "n \<in> set (kept ?rb)"
    by (simp add: sankey_window_def Let_def)
  with inv obtain i where i: "Some i \<in> set ?used" "map_of (nodeMap ?rb) i = Some (index n)"
    by blast
  from i(1) obtain l where l: "l \<in> set ?tops" "source l = Some i \<or> target l = Some i"
    by (auto simp: usedNodeIndices_def)
  from l(1) topLinks_subset have "l \<in> set (links sd)"
    by blast
  from ends[OF this] obtain s t where st: "source l = Some s" "target l = Some t"
    "s < length (nodes sd)" "t < length (nodes sd)"
    by blast
  from l(1) st have "Some s \<in> set ?used" "Some t \<in> set ?used"
    by (force simp: usedNodeIndices_def)+
  with inv st keys obtain s' t' where m: "map_of (nodeMap ?rb) s = Some s'"
    "map_of (nodeMap ?rb) t = Some t'"
    by (metis atLeastLessThan_iff not_Some_eq zero_le)
  define f :: "link \<Rightarrow> link" where "f = (\<lambda>l. l\<lparr>source := get_opt (nodeMap ?rb) (source l),
    target := get_opt (nodeMap ?rb) (target l)\<rparr>)"
  have fl: "filteredLinks (sankey_window sd) =
      filter (\<lambda>l. source l \<noteq> None \<and> target l \<noteq> None) (map f ?tops)"
    by (simp add: sankey_window_def Let_def f_def)
  have ends': "source (f l) = Some s'" "target (f l) = Some t'"
    by (simp_all add: f_def get_opt_def map_get_def st m)
  from l(1) have "f l \<in> set (map f ?tops)"
    by simp
  with ends' have "f l \<in> set (filteredLinks (sankey_window sd))"
    unfolding fl by simp
  moreover from l(2) st i(2) m ends' have "source (f l) = Some (index n) \<or> target (f l) = Some (index n)"
    by auto
  ultimately show ?thesis
    by blast
qed

text \<open>
  C6. For every record collection and sort key, the graph that the flow diagram draws has
  at most 100 edges, and every node built for it is the source or the target of at least
  one of the edges kept. (The windowing is the step \<open>sankey_window\<close> of
  \<open>SankeyChart.render\<close>, applied to the result of \<open>aggregateForSankey\<close>.)
\<close>

theorem windowed_graph_bounded:
  "length (filteredLinks (sankey_window (aggregateForSankey lc data sb))) \<le> 100 \<and>
   (\<forall>n \<in> set (filteredNodes (sankey_window (aggregateForSankey lc data sb))).
      \<exists>l \<in> set (filteredLinks (sankey_window (aggregateForSankey lc data sb))).
        source l = Some (index n) \<or> target l = Some (index n)) \<and>
   (sankey_render lc st data \<noteq> None \<longrightarrow>
      sankey_render lc st data =
        Some (sankey_window (aggregateForSankey lc data (sortBy st))))"
proof -
  have "length (filteredLinks (sankey_window sd)) \<le> length (topLinks (links sd))" for sd
    by (simp add: sankey_window_def Let_def)
  with length_topLinks have a: "length (filteredLinks (sankey_window sd)) \<le> 100" for sd
    using le_trans by blast
  have b: "\<exists>l \<in> set (filteredLinks (sankey_window (aggregateForSankey lc data sb))).
      source l = Some (index n) \<or> target l = Some (index n)"
    if "n \<in> set (filteredNodes (sankey_window (aggregateForSankey lc data sb)))" for n
    by (rule window_referenced[OF link_ends that])
  have c: "sankey_render lc st data =
      Some (sankey_window (aggregateForSankey lc data (sortBy st)))"
    if "sankey_render lc st data \<noteq> None"
    using that by (simp add: sankey_render_def Let_def split: if_splits)
  from a b c show ?thesis
    by blast
qed

theorem windowed_graph_bounded_witness:
  "\<lparr>node_name = ''A'', node_type = Vendor, node_id = ''vendor:A'', node_total = Some 150,
      index = 0\<rparr>
     \<in> set (filteredNodes (sankey_window (aggregateForSankey no_collation scenario ''amount-desc''))) \<and>
   (\<exists>l \<in> set (filteredLinks (sankey_window (aggregateForSankey no_collation scenario ''amount-desc''))).
      source l = Some 0 \<or> target l = Some 0) \<and>
   sankey_render no_collation (state_of [] ''amount-desc'') scenario \<noteq> None \<and>
   sankey_render no_collation (state_of [] ''amount-desc'') scenario =
     Some (sankey_window (aggregateForSankey no_collation scenario ''amount-desc''))"
proof -
  let ?w = "sankey_window (aggregateForSankey no_collation scenario ''amount-desc'')"
  let ?n = "\<lparr>node_name = ''A'', node_type = Vendor, node_id = ''vendor:A'',
    node_total = Some 150, index = 0::nat\<rparr>"
  have n: "?n \<in> set (filteredNodes ?w)"
    by code_simp
  have r: "sankey_render no_collation (state_of [] ''amount-desc'') scenario \<noteq> None"
    by code_simp
  have sb: "sortBy (state_of [] ''amount-desc'') = ''amount-desc''"
    by (simp add: state_of_def)
  note t = windowed_graph_bounded[of no_collation scenario "''amount-desc''"
      "state_of [] ''amount-desc''"]
  from t n have "\<exists>l \<in> set (filteredLinks ?w). source l = Some (index ?n) \<or> target l = Some (index ?n)"
    by blast
  then have e: "\<exists>l \<in> set (filteredLinks ?w). source l = Some 0 \<or> target l = Some 0"
    by simp
  from t r have "sankey_render no_collation (state_of [] ''amount-desc'') scenario =
      Some (sankey_window (aggregateForSankey no_collation scenario
        (sortBy (state_of [] ''amount-desc''))))"
    by blast
  with n e r show ?thesis
    unfolding sb by blast
qed

section \<open>What the windows keep\<close>

lemma names_limit_entries: "map entry_name (limit_entries n names totals) = take n names"
  by (simp add: limit_entries_def case_prod_beta o_def)

lemma totals_limit_entries:
  assumes "length totals = length names"
  shows "map entry_total (limit_entries n names totals) = take n totals"
proof -
  have "map entry_total (limit_entries n names totals) =
      map (total_at totals \<circ> fst) (enumerate 0 (take n names))"
    by (simp add: limit_entries_def case_prod_beta o_def)
  also have "\<dots> = map (total_at totals) (map fst (enumerate 0 (take n names)))"
    by (simp only: map_map)
  also have "\<dots> = map (total_at totals) [0..<length (take n names)]"
    by (simp only: map_fst_enumerate add_0)
  also have "\<dots> = map (\<lambda>i. take n totals ! i) [0..<length (take n totals)]"
    using assms by (auto simp: total_at_def at_index_def)
  also have "\<dots> = take n totals"
    by (rule map_nth)
  finally show ?thesis .
qed

lemma sort_field_amount_desc: "sort_field ''amount-desc'' = Some ''amount''"
  by code_simp

lemma multiplier_amount_desc: "multiplier ''amount-desc'' = - 1"
  by code_simp

lemma sorted_desc_totals:
  assumes d: "distinct (map fst totals)"
  shows "\<exists>ts. map (map_get totals) (order_entities lc ''amount-desc'' totals counts) = map Some ts \<and>
    sorted_wrt (\<lambda>x y. y \<le> x) ts"
proof -
  let ?cmp = "by_amount ''amount-desc''"
  let ?s = "js_sort ?cmp totals"
  have le: "?cmp a b \<le> 0 \<longleftrightarrow> snd b \<le> snd a" for a b
    by (simp add: by_amount_def multiplier_amount_desc)
  have "sorted_wrt (\<lambda>a b. ?cmp a b \<le> 0) ?s"
    by (rule sorted_js_sort) (auto simp: le)
  then have s: "sorted_wrt (\<lambda>x y. y \<le> x) (map snd ?s)"
    by (simp add: sorted_wrt_map le)
  have "map_get totals (fst e) = Some (snd e)" if "e \<in> set ?s" for e
  proof -
    from that have "(fst e, snd e) \<in> set totals"
      by simp
    with d show ?thesis
      by (simp add: map_get_def)
  qed
  then have "map (map_get totals) (map fst ?s) = map Some (map snd ?s)"
    by simp
  moreover have "order_entities lc ''amount-desc'' totals counts = map fst ?s"
    by (simp add: order_entities_def sort_field_amount_desc)
  ultimately have "map (map_get totals) (order_entities lc ''amount-desc'' totals counts) =
      map Some (map snd ?s)"
    by (simp only:)
  with s show ?thesis
    by blast
qed

lemma link_summary_make: "link_summary (make_link ni b) =
    (vendor b, agency b, amount b, count b, contracts b)"
  by (simp add: link_summary_def make_link_def)

lemma link_summaries:
  "map link_summary (links (aggregateForSankey lc data sb)) =
     map (\<lambda>b. (vendor b, agency b, amount b, count b, contracts b))
       (map snd (linkMap (sankey_group data)))"
  by (simp add: aggregateForSankey_eq link_summary_make o_def)

lemma topLinks_summary:
  "map link_summary (topLinks ls) =
     take maxLinks (js_sort (\<lambda>a b. fst (snd (snd b)) - fst (snd (snd a))) (map link_summary ls))"
  unfolding topLinks_def take_map[symmetric]
  by (subst map_js_sort[where cmp' = "\<lambda>a b. fst (snd (snd b)) - fst (snd (snd a))"])
    (simp_all add: link_summary_def)

lemma topLinks_highest:
  "l \<in> set (topLinks ls) \<Longrightarrow>
   l' \<in> set (drop maxLinks (js_sort (\<lambda>a b. link_value b - link_value a) ls)) \<Longrightarrow>
   link_value l' \<le> link_value l"
proof -
  let ?s = "js_sort (\<lambda>a b. link_value b - link_value a) ls"
  assume l: "l \<in> set (topLinks ls)" and l': "l' \<in> set (drop maxLinks ?s)"
  have "sorted_wrt (\<lambda>a b. link_value b - link_value a \<le> 0) ?s"
    by (rule sorted_js_sort) auto
  then have "sorted_wrt (\<lambda>a b. link_value b \<le> link_value a) (take maxLinks ?s @ drop maxLinks ?s)"
    by simp
  with l l' show ?thesis
    unfolding sorted_wrt_append topLinks_def by blast
qed

lemma sorted_by_value:
  "sorted_wrt (\<lambda>a b. link_value b \<le> link_value a) (js_sort by_value ls)"
proof -
  have "sorted_wrt (\<lambda>a b. by_value a b \<le> 0) (js_sort by_value ls)"
    by (rule sorted_js_sort) (auto simp: by_value_def)
  then show ?thesis
    by (simp add: by_value_def)
qed

lemma topLinks_by_value: "topLinks ls = take maxLinks (js_sort by_value ls)"
proof -
  have "by_value = (\<lambda>a b. link_value b - link_value a)"
    by (rule ext, rule ext) (simp add: by_value_def)
  then show ?thesis
    by (simp add: topLinks_def)
qed

lemma matrix_render_eq:
  "matrix_render lc st data =
     (if data = [] then None
      else Some
        \<lparr>vendorOrder = limit_entries maxVendors (vendors (aggregateForMatrix lc data (sortBy st)))
           (vendorTotals (aggregateForMatrix lc data (sortBy st))),
         agencyOrder = limit_entries maxAgencies (agencies (aggregateForMatrix lc data (sortBy st)))
           (agencyTotals (aggregateForMatrix lc data (sortBy st))),
         shown_cells =
           map (\<lambda>v. map (\<lambda>a. cell_at (matrix (aggregateForMatrix lc data (sortBy st)))
                     (entry_index v) (entry_index a))
                  (limit_entries maxAgencies (agencies (aggregateForMatrix lc data (sortBy st)))
                     (agencyTotals (aggregateForMatrix lc data (sortBy st)))))
             (limit_entries maxVendors (vendors (aggregateForMatrix lc data (sortBy st)))
                (vendorTotals (aggregateForMatrix lc data (sortBy st)))),
         grandTotal = foldl add_total (Num 0)
           (limit_entries maxVendors (vendors (aggregateForMatrix lc data (sortBy st)))
              (vendorTotals (aggregateForMatrix lc data (sortBy st))))\<rparr>)"
proof (cases "data = []")
  case True
  then show ?thesis by (simp add: matrix_render_def)
next
  case False
  then have "set (sorted_vendors lc (sortBy st) data) \<noteq> {}"
    "set (sorted_agencies lc (sortBy st) data) \<noteq> {}"
    by (simp_all add: set_sorted_vendors set_sorted_agencies)
  then have "vendors (aggregateForMatrix lc data (sortBy st)) \<noteq> []"
    "agencies (aggregateForMatrix lc data (sortBy st)) \<noteq> []"
    by (simp_all add: aggregateForMatrix_eq)
  with False show ?thesis
    by (simp add: matrix_render_def Let_def)
qed

text \<open>
  C3 as the specification states it: whatever sort key the user chose, the at most 50
  vendors and 30 agencies that the matrix view keeps are the highest by total amount.
  This fails for the matrix view. With thirty-one agencies whose totals are 1 to 31 and
  the sort key \<open>amount-asc\<close>, the view keeps the agencies with the totals 1 to 30 and
  drops the one with the highest total.
\<close>

theorem matrix_window_follows_sort:
  "map_option (map entry_total \<circ> agencyOrder)
     (matrix_render no_collation (state_of [] ''amount-asc'') many_agencies) =
     Some [Some 1, Some 2, Some 3, Some 4, Some 5, Some 6, Some 7, Some 8, Some 9, Some 10,
          Some 11, Some 12, Some 13, Some 14, Some 15, Some 16, Some 17, Some 18, Some 19,
          Some 20, Some 21, Some 22, Some 23, Some 24, Some 25, Some 26, Some 27, Some 28,
          Some 29, Some 30] \<and>
   agencyTotals (aggregateForMatrix no_collation many_agencies ''amount-asc'') =
     [Some 1, Some 2, Some 3, Some 4, Some 5, Some 6, Some 7, Some 8, Some 9, Some 10,
      Some 11, Some 12, Some 13, Some 14, Some 15, Some 16, Some 17, Some 18, Some 19,
      Some 20, Some 21, Some 22, Some 23, Some 24, Some 25, Some 26, Some 27, Some 28,
      Some 29, Some 30, Some 31]"
  by code_simp

text \<open>
  C3, amended. The graph edge view keeps the first 100 buckets of the list sorted by
  descending summed amount, so the buckets kept are the highest by amount, and they are
  the same whatever the sort key. The matrix view keeps the first 50 vendors and the
  first 30 agencies in the order of the user's sort key; these are the highest by total
  amount when the sort key is \<open>amount-desc\<close>, under which the totals are in
  descending order.
\<close>

theorem windowing_selection:
  "topLinks (links (aggregateForSankey lc data sb)) =
     take 100 (js_sort by_value (links (aggregateForSankey lc data sb))) \<and>
   sorted_wrt (\<lambda>a b. link_value b \<le> link_value a)
     (js_sort by_value (links (aggregateForSankey lc data sb))) \<and>
   set (js_sort by_value (links (aggregateForSankey lc data sb))) =
     set (links (aggregateForSankey lc data sb)) \<and>
   map link_summary (topLinks (links (aggregateForSankey lc data sb))) =
     map link_summary (topLinks (links (aggregateForSankey lc data sb'))) \<and>
   map_option (map entry_name \<circ> vendorOrder) (matrix_render lc st data) =
     (if data = [] then None
      else Some (take 50 (vendors (aggregateForMatrix lc data (sortBy st))))) \<and>
   map_option (map entry_total \<circ> vendorOrder) (matrix_render lc st data) =
     (if data = [] then None
      else Some (take 50 (vendorTotals (aggregateForMatrix lc data (sortBy st))))) \<and>
   map_option (map entry_name \<circ> agencyOrder) (matrix_render lc st data) =
     (if data = [] then None
      else Some (take 30 (agencies (aggregateForMatrix lc data (sortBy st))))) \<and>
   map_option (map entry_total \<circ> agencyOrder) (matrix_render lc st data) =
     (if data = [] then None
      else Some (take 30 (agencyTotals (aggregateForMatrix lc data (sortBy st))))) \<and>
   (\<exists>ts. vendorTotals (aggregateForMatrix lc data ''amount-desc'') = map Some ts \<and>
      sorted_wrt (\<lambda>x y. y \<le> x) ts) \<and>
   (\<exists>ts. agencyTotals (aggregateForMatrix lc data ''amount-desc'') = map Some ts \<and>
      sorted_wrt (\<lambda>x y. y \<le> x) ts)"
proof -
  let ?ls = "links (aggregateForSankey lc data sb)"
  let ?md = "aggregateForMatrix lc data (sortBy st)"
  have p1: "topLinks ?ls = take 100 (js_sort by_value ?ls)"
    by (simp add: topLinks_by_value maxLinks_def)
  have p2: "sorted_wrt (\<lambda>a b. link_value b \<le> link_value a) (js_sort by_value ?ls)"
    by (rule sorted_by_value)
  have p3: "set (js_sort by_value ?ls) = set ?ls"
    by simp
  have p4: "map link_summary (topLinks ?ls) =
      map link_summary (topLinks (links (aggregateForSankey lc data sb')))"
    by (simp only: topLinks_summary link_summaries)
  have len: "length (vendorTotals ?md) = length (vendors ?md)"
    "length (agencyTotals ?md) = length (agencies ?md)"
    by (simp_all add: aggregateForMatrix_eq)
  have p5: "map_option (map entry_name \<circ> vendorOrder) (matrix_render lc st data) =
      (if data = [] then None else Some (take 50 (vendors ?md)))"
    by (simp add: matrix_render_eq names_limit_entries maxVendors_def)
  have p6: "map_option (map entry_total \<circ> vendorOrder) (matrix_render lc st data) =
      (if data = [] then None else Some (take 50 (vendorTotals ?md)))"
    by (simp add: matrix_render_eq totals_limit_entries[OF len(1)] maxVendors_def)
  have p7: "map_option (map entry_name \<circ> agencyOrder) (matrix_render lc st data) =
      (if data = [] then None else Some (take 30 (agencies ?md)))"
    by (simp add: matrix_render_eq names_limit_entries maxAgencies_def)
  have p8: "map_option (map entry_total \<circ> agencyOrder) (matrix_render lc st data) =
      (if data = [] then None else Some (take 30 (agencyTotals ?md)))"
    by (simp add: matrix_render_eq totals_limit_entries[OF len(2)] maxAgencies_def)
  have p9: "\<exists>ts. vendorTotals (aggregateForMatrix lc data ''amount-desc'') = map Some ts \<and>
      sorted_wrt (\<lambda>x y. y \<le> x) ts"
    using sorted_desc_totals[OF distinct_totals_of, of vendor_of data lc "counts_of vendor_of data"]
    by (simp add: aggregateForMatrix_eq sorted_vendors_def)
  have p10: "\<exists>ts. agencyTotals (aggregateForMatrix lc data ''amount-desc'') = map Some ts \<and>
      sorted_wrt (\<lambda>x y. y \<le> x) ts"
    using sorted_desc_totals[OF distinct_totals_of, of agency_of data lc "counts_of agency_of data"]
    by (simp add: aggregateForMatrix_eq sorted_agencies_def)
  from p1 p2 p3 p4 p5 p6 p7 p8 p9 p10 show ?thesis
    by (intro conjI)
qed

section \<open>Normalization and the safe defaults\<close>








section \<open>The scenario of the specification\<close>

text \<open>
  C9. On the three records (A to X for 100, A to Y for 50, B to X for 25) with the sort key
  \<open>amount-desc\<close>, aggregation gives the vendor order A (150), B (25), the agency order
  X (125), Y (50), the matrix cells (A,X) = 100, (A,Y) = 50, (B,X) = 25 and (B,Y) = 0,
  the absent pair being a zero/zero cell, and the grand total 175. The graph projection
  has the same nodes in the same order and the three edges.
\<close>

theorem scenario_aggregation:
  "aggregateForMatrix lc scenario ''amount-desc'' =
     \<lparr>vendors = [''A'', ''B''], agencies = [''X'', ''Y''],
      matrix = [[\<lparr>amount = 100, count = 1\<rparr>, \<lparr>amount = 50, count = 1\<rparr>],
                [\<lparr>amount = 25, count = 1\<rparr>, \<lparr>amount = 0, count = 0\<rparr>]],
      vendorTotals = [Some 150, Some 25], agencyTotals = [Some 125, Some 50]\<rparr> \<and>
   map (\<lambda>n. (node_name n, node_type n, node_total n))
       (nodes (aggregateForSankey lc scenario ''amount-desc'')) =
     [(''A'', Vendor, Some 150), (''B'', Vendor, Some 25),
      (''X'', Agency, Some 125), (''Y'', Agency, Some 50)] \<and>
   map (\<lambda>l. (link_vendor l, link_agency l, link_value l, link_count l))
       (links (aggregateForSankey lc scenario ''amount-desc'')) =
     [(''A'', ''X'', 100, 1), (''A'', ''Y'', 50, 1), (''B'', ''X'', 25, 1)] \<and>
   map_option grandTotal (matrix_render lc (state_of [] ''amount-desc'') scenario) =
     Some (Num 175)"
  by code_simp

section \<open>Where the code departs from the specification\<close>

text \<open>
  C5. \<open>API.fetchAll\<close> pages in chunks of 10,000 rows and always returns (the loop is a
  total function), but the bound of 100,000 rows does not hold of the code. The cap is
  tested as \<open>offset > 100000\<close> after the offset has been advanced, so the page at
  offset 100,000 is still fetched and kept: against a service that always answers with a
  full page, \<open>fetchAll\<close> returns 110,000 rows.
\<close>

theorem fetchAll_exceeds_cap:
  "map_sum id length (fetchAll pf full_pages) = Inr 110000"
proof -
  have "fetch_loop full_pages [] 0 = Inr (replicate 110000 blank_row)"
    by (simp add: full_pages_def PAGE_SIZE_def replicate_add[symmetric])
  then show ?thesis
    by (simp add: fetchAll_def processData_def)
qed

text \<open>
  C4. The header statistics are computed over the whole filtered collection, and the row
  and column totals of the matrix view are the unwindowed rollups, but the grand total
  of the matrix view is not: it adds up the totals of the rows that the window keeps.
  With fifty-one vendors of amount 1 the header reports 51 records and the amount 51,
  and the matrix view shows the grand total 50.
\<close>

theorem grand_total_windowed:
  "map_option grandTotal (matrix_render lc (state_of [] ''amount-desc'') many_vendors) =
     Some (Num 50) \<and>
   snd (applyClientFilters lc lower (state_of [] ''amount-desc'') many_vendors) =
     \<lparr>total_contracts = 51, total_amount = 51\<rparr>"
  by code_simp

text \<open>
  C1. The two projections agree on the entity orders, on the totals and on the bucket of
  every edge, but a pair without an edge need not have a zero cell: the bucket key is
  the string \<open>vendor|||agency\<close>, and two different pairs can have the same key. For the
  records (\<open>A|||B\<close>, \<open>C\<close>, 1) and (\<open>A\<close>, \<open>B|||C\<close>, 2) the graph has the single edge
  from \<open>A|||B\<close> to \<open>C\<close> with amount 3 and count 2, while the matrix holds amount 3 and
  count 2 both in the cell of that pair and in the cell of (\<open>A\<close>, \<open>B|||C\<close>), for which
  the graph has no edge.
\<close>

theorem colliding_views_disagree:
  "map link_summary (links (aggregateForSankey lc colliding ''amount-desc'')) =
     [(''A|||B'', ''C'', 3, 2, colliding)] \<and>
   aggregateForMatrix lc colliding ''amount-desc'' =
     \<lparr>vendors = [''A'', ''A|||B''], agencies = [''B|||C'', ''C''],
      matrix = [[\<lparr>amount = 3, count = 2\<rparr>, \<lparr>amount = 0, count = 0\<rparr>],
                [\<lparr>amount = 0, count = 0\<rparr>, \<lparr>amount = 3, count = 2\<rparr>]],
      vendorTotals = [Some 2, Some 1], agencyTotals = [Some 2, Some 1]\<rparr>"
  by code_simp

text \<open>
  C2. The amounts of the edges always add up to the amounts of the input records, but the
  cells of the matrix need not: with the two records above, whose keys collide, the
  edges and the records add up to 3 and the cells of the matrix to 6.
\<close>

theorem colliding_sums_differ:
  "sum_list (map link_value (links (aggregateForSankey lc colliding ''amount-desc''))) = 3 \<and>
   sum_list (map contract_amount colliding) = 3 \<and>
   sum_list (map amount (concat (matrix (aggregateForMatrix lc colliding ''amount-desc'')))) = 6"
  by code_simp

end
